theory Spec2Isabelle
  imports Main "HOL-Library.AList" "HOL-Library.Sublist"
begin

section \<open>Tokens delivered by the XML decoder\<close>

text \<open>
  The parser and the validator of package \<open>storage\<close> read their input through the
  method \<open>Token\<close> of an \<open>xml.Decoder\<close>. A token is a start element (a name and its
  attributes), an end element, character data, or a comment, processing instruction or
  directive. A name has a \<open>Space\<close> and a \<open>Local\<close> part; the program only ever reads
  \<open>Local\<close>.
\<close>

datatype Name = XName (Space: string) (Local: string)

datatype Attr = Attr (AttrName: Name) (Value: string)

datatype Token =
    StartElement Name "Attr list"
  | EndElement Name
  | CharData string
  | Comment string
  | ProcInst string string
  | Directive string

text \<open>
  A decoder is modelled by what its successive calls of \<open>Token\<close> return: a token, or a
  syntax error. The empty list is the decoder at the end of its input, where \<open>Token\<close>
  returns \<open>io.EOF\<close>.
\<close>

datatype event = Tok Token | SyntaxError string

type_synonym decoder = "event list"

datatype error =
    XMLError string
  | WrappedParseError string
  | InvalidHeadingLevel int
  | ValidationError (Message: string) (Tag: string)

section \<open>strings.TrimSpace\<close>

text \<open>
  \<open>strings.TrimSpace\<close> removes the leading and the trailing white space of a string, as
  \<open>unicode.IsSpace\<close> defines it. A Go string is a byte sequence: the white space runes are
  six ASCII bytes and the UTF-8 encodings of U+0085, U+00A0, U+1680, U+2000 to U+200A,
  U+2028, U+2029, U+202F, U+205F and U+3000. \<open>spaceSeqs\<close> lists these encodings.
\<close>

definition spaceSeqs :: "string list" where
  "spaceSeqs =
     [[CHR 0x09], [CHR 0x0A], [CHR 0x0B], [CHR 0x0C], [CHR 0x0D], [CHR 0x20],
      [CHR 0xC2, CHR 0x85], [CHR 0xC2, CHR 0xA0],
      [CHR 0xE1, CHR 0x9A, CHR 0x80],
      [CHR 0xE2, CHR 0x80, CHR 0x80], [CHR 0xE2, CHR 0x80, CHR 0x81],
      [CHR 0xE2, CHR 0x80, CHR 0x82], [CHR 0xE2, CHR 0x80, CHR 0x83],
      [CHR 0xE2, CHR 0x80, CHR 0x84], [CHR 0xE2, CHR 0x80, CHR 0x85],
      [CHR 0xE2, CHR 0x80, CHR 0x86], [CHR 0xE2, CHR 0x80, CHR 0x87],
      [CHR 0xE2, CHR 0x80, CHR 0x88], [CHR 0xE2, CHR 0x80, CHR 0x89],
      [CHR 0xE2, CHR 0x80, CHR 0x8A],
      [CHR 0xE2, CHR 0x80, CHR 0xA8], [CHR 0xE2, CHR 0x80, CHR 0xA9],
      [CHR 0xE2, CHR 0x80, CHR 0xAF], [CHR 0xE2, CHR 0x81, CHR 0x9F],
      [CHR 0xE3, CHR 0x80, CHR 0x80]]"

text \<open>The number of bytes of the white space rune a string starts with, or ends with;
  0 when it starts, or ends, with none.\<close>

definition leadingSpace :: "string \<Rightarrow> nat" where
  "leadingSpace s = (case List.find (\<lambda>w. prefix w s) spaceSeqs of None \<Rightarrow> 0 | Some w \<Rightarrow> length w)"

definition trailingSpace :: "string \<Rightarrow> nat" where
  "trailingSpace s = (case List.find (\<lambda>w. suffix w s) spaceSeqs of None \<Rightarrow> 0 | Some w \<Rightarrow> length w)"

lemma spaceSeqs_nonempty: "w \<in> set spaceSeqs \<Longrightarrow> w \<noteq> []"
  by (auto simp: spaceSeqs_def)

lemma leadingSpace_pos: "0 < leadingSpace s \<Longrightarrow> 0 < length s"
  by (auto simp: leadingSpace_def find_Some_iff spaceSeqs_nonempty split: option.splits)

lemma trailingSpace_pos: "0 < trailingSpace s \<Longrightarrow> 0 < length s"
  by (auto simp: trailingSpace_def find_Some_iff spaceSeqs_nonempty split: option.splits)

function TrimLeft :: "string \<Rightarrow> string" where
  "TrimLeft s = (if leadingSpace s = 0 then s else TrimLeft (drop (leadingSpace s) s))"
  by pat_completeness auto
termination
  by (relation "measure length") (auto dest: leadingSpace_pos intro: diff_less)

function TrimRight :: "string \<Rightarrow> string" where
  "TrimRight s = (if trailingSpace s = 0 then s else TrimRight (take (length s - trailingSpace s) s))"
  by pat_completeness auto
termination
  by (relation "measure length") (auto dest: trailingSpace_pos intro: diff_less)

declare TrimLeft.simps [simp del] TrimRight.simps [simp del]

definition TrimSpace :: "string \<Rightarrow> string" where
  "TrimSpace s = TrimRight (TrimLeft s)"

section \<open>The intermediate representation (types.go)\<close>

text \<open>
  \<open>Params\<close> is a Go map from string to string: the entries are kept in a list with distinct
  keys, and a store is \<open>AList.update\<close>. The order in which a \<open>range\<close> statement visits a
  map is not fixed by the language; the renderer takes it as the argument \<open>iter\<close> below.
\<close>

record Macro =
  Name :: string
  Params :: "(string \<times> string) list"
  Body :: string

record Cell =
  Text :: string
  Macro :: "Macro option"

record Row =
  Cells :: "Cell list"

datatype ListItem = ListItem (ItemText: string)

datatype Block =
    Table (Headers: "string list") (Rows: "Row list")
  | Paragraph string
  | Heading int string
  | BulletList "ListItem list"
  | NumberedList "ListItem list"
  | MacroBlock Macro
  | CodeBlock (Language: string) (Code: string)
  | HorizontalRule

datatype Page = Page (Blocks: "Block list")

section \<open>The parser (parse.go)\<close>

text \<open>
  Every function reads tokens from the decoder it is given and returns, with its result,
  the decoder as it left it. A loop \<open>for { tok, err := decoder.Token() ... }\<close> is a
  recursive function on the decoder; \<open>err == io.EOF\<close> is the empty list.
\<close>

fun skipElement_loop :: "int \<Rightarrow> decoder \<Rightarrow> error + decoder" where
  "skipElement_loop depth [] = Inr []"
| "skipElement_loop depth (ev # d) =
     (if depth > 0 then
        (case ev of
           SyntaxError e \<Rightarrow> Inl (XMLError e)
         | Tok t \<Rightarrow>
            (case t of
               StartElement _ _ \<Rightarrow> skipElement_loop (depth + 1) d
             | EndElement _ \<Rightarrow> skipElement_loop (depth - 1) d
             | _ \<Rightarrow> skipElement_loop depth d))
      else Inr (ev # d))"

definition skipElement :: "decoder \<Rightarrow> error + decoder" where
  "skipElement d = skipElement_loop 1 d"

fun extractNestedText_loop :: "string \<Rightarrow> int \<Rightarrow> decoder \<Rightarrow> error + (string \<times> decoder)" where
  "extractNestedText_loop content depth [] = Inr (TrimSpace content, [])"
| "extractNestedText_loop content depth (ev # d) =
     (if depth > 0 then
        (case ev of
           SyntaxError e \<Rightarrow> Inl (XMLError e)
         | Tok t \<Rightarrow>
            (case t of
               CharData c \<Rightarrow> extractNestedText_loop (content @ c) depth d
             | StartElement _ _ \<Rightarrow> extractNestedText_loop content (depth + 1) d
             | EndElement _ \<Rightarrow> extractNestedText_loop content (depth - 1) d
             | _ \<Rightarrow> extractNestedText_loop content depth d))
      else Inr (TrimSpace content, ev # d))"

definition extractNestedText :: "decoder \<Rightarrow> error + (string \<times> decoder)" where
  "extractNestedText d = extractNestedText_loop [] 1 d"

lemma skipElement_loop_length:
  "skipElement_loop depth d = Inr d' \<Longrightarrow> length d' \<le> length d"
  by (induction depth d rule: skipElement_loop.induct)
     (auto split: if_splits event.splits Token.splits)

lemma skipElement_length: "skipElement d = Inr d' \<Longrightarrow> length d' \<le> length d"
  unfolding skipElement_def by (rule skipElement_loop_length)

lemma extractNestedText_loop_length:
  "extractNestedText_loop c depth d = Inr (s, d') \<Longrightarrow> length d' \<le> length d"
  by (induction c depth d rule: extractNestedText_loop.induct)
     (auto split: if_splits event.splits Token.splits)

lemma extractNestedText_length: "extractNestedText d = Inr (s, d') \<Longrightarrow> length d' \<le> length d"
  unfolding extractNestedText_def by (rule extractNestedText_loop_length)

function parseTextContent_loop :: "string \<Rightarrow> string \<Rightarrow> decoder \<Rightarrow> error + (string \<times> decoder)" where
  "parseTextContent_loop endTag content [] = Inr (content, [])"
| "parseTextContent_loop endTag content (ev # d) =
     (case ev of
        SyntaxError e \<Rightarrow> Inl (XMLError e)
      | Tok t \<Rightarrow>
         (case t of
            CharData c \<Rightarrow> parseTextContent_loop endTag (content @ c) d
          | EndElement n \<Rightarrow>
              if Local n = endTag then Inr (TrimSpace content, d)
              else parseTextContent_loop endTag content d
          | StartElement _ _ \<Rightarrow>
             (case skipElement d of
                Inl e \<Rightarrow> Inl e
              | Inr d' \<Rightarrow> parseTextContent_loop endTag content d')
          | _ \<Rightarrow> parseTextContent_loop endTag content d))"
  by pat_completeness auto
termination
  by (relation "measure (\<lambda>(e, c, d). length d)") (auto dest: skipElement_length)

definition parseTextContent :: "decoder \<Rightarrow> string \<Rightarrow> error + (string \<times> decoder)" where
  "parseTextContent d endTag = parseTextContent_loop endTag [] d"

lemma parseTextContent_loop_length:
  "parseTextContent_loop e c d = Inr (s, d') \<Longrightarrow> length d' \<le> length d"
  by (induction e c d rule: parseTextContent_loop.induct)
     (fastforce split: if_splits event.splits Token.splits sum.splits dest: skipElement_length)+

lemma parseTextContent_length:
  "parseTextContent d e = Inr (s, d') \<Longrightarrow> length d' \<le> length d"
  unfolding parseTextContent_def by (rule parseTextContent_loop_length)

text \<open>The loops over \<open>start.Attr\<close> that look for the attribute whose local name is
  \<open>name\<close>: \<open>parseMacro\<close> keeps the last one, \<open>getMacroName\<close> returns the first.\<close>

definition nameAttr :: "string \<Rightarrow> Attr list \<Rightarrow> string" where
  "nameAttr init attrs =
     foldl (\<lambda>name attr. if Local (AttrName attr) = ''name'' then Value attr else name) init attrs"

function parseMacro_loop :: "Macro \<Rightarrow> decoder \<Rightarrow> error + (Macro \<times> decoder)" where
  "parseMacro_loop macro [] = Inr (macro, [])"
| "parseMacro_loop macro (ev # d) =
     (case ev of
        SyntaxError e \<Rightarrow> Inl (XMLError e)
      | Tok t \<Rightarrow>
         (case t of
            StartElement n attrs \<Rightarrow>
              if Local n = ''parameter'' then
                (case parseTextContent d ''parameter'' of
                   Inl e \<Rightarrow> Inl e
                 | Inr (val, d') \<Rightarrow>
                     if nameAttr [] attrs \<noteq> [] then
                       parseMacro_loop
                         (macro\<lparr>Params := AList.update (nameAttr [] attrs) val (Params macro)\<rparr>) d'
                     else parseMacro_loop macro d')
              else if Local n = ''rich-text-body'' \<or> Local n = ''plain-text-body'' then
                (case parseTextContent d (Local n) of
                   Inl e \<Rightarrow> Inl e
                 | Inr (body, d') \<Rightarrow> parseMacro_loop (macro\<lparr>Body := body\<rparr>) d')
              else
                (case skipElement d of
                   Inl e \<Rightarrow> Inl e
                 | Inr d' \<Rightarrow> parseMacro_loop macro d')
          | EndElement n \<Rightarrow>
              if Local n = ''structured-macro'' then Inr (macro, d)
              else parseMacro_loop macro d
          | _ \<Rightarrow> parseMacro_loop macro d))"
  by pat_completeness auto
termination
  by (relation "measure (\<lambda>(m, d). length d)")
     (auto dest: skipElement_length parseTextContent_length)

definition parseMacro :: "decoder \<Rightarrow> Attr list \<Rightarrow> error + (Macro \<times> decoder)" where
  "parseMacro d startAttr =
     parseMacro_loop \<lparr>Name = nameAttr [] startAttr, Params = [], Body = []\<rparr> d"

lemma parseMacro_loop_length:
  "parseMacro_loop m d = Inr (m', d') \<Longrightarrow> length d' \<le> length d"
proof (induction "length d" arbitrary: m d rule: less_induct)
  case less
  show ?case
  proof (cases d)
    case Nil
    with less.prems show ?thesis by simp
  next
    case (Cons ev d0)
    have IH: "length d' \<le> length d"
      if "length d1 \<le> length d0" "parseMacro_loop m1 d1 = Inr (m', d')" for m1 d1
    proof -
      from that Cons have "length d1 < length d" by simp
      from less.hyps [OF this that(2)] that(1) Cons show ?thesis by simp
    qed
    from less.prems Cons show ?thesis
      by (auto split: event.splits Token.splits if_splits sum.splits prod.splits
          dest: IH [OF parseTextContent_length] IH [OF skipElement_length] IH [OF order_refl])
  qed
qed

lemma parseMacro_length: "parseMacro d a = Inr (m, d') \<Longrightarrow> length d' \<le> length d"
  unfolding parseMacro_def by (rule parseMacro_loop_length)

function parseTableCell_loop ::
    "string \<Rightarrow> Cell \<Rightarrow> string \<Rightarrow> decoder \<Rightarrow> error + (Cell \<times> decoder)" where
  "parseTableCell_loop tagName cell content [] = Inr (cell, [])"
| "parseTableCell_loop tagName cell content (ev # d) =
     (case ev of
        SyntaxError e \<Rightarrow> Inl (XMLError e)
      | Tok t \<Rightarrow>
         (case t of
            StartElement n attrs \<Rightarrow>
              if Local n = ''structured-macro'' then
                (case parseMacro d attrs of
                   Inl e \<Rightarrow> Inl e
                 | Inr (macro, d') \<Rightarrow>
                     parseTableCell_loop tagName (cell\<lparr>Macro := Some macro\<rparr>) content d')
              else
                (case extractNestedText d of
                   Inl e \<Rightarrow> Inl e
                 | Inr (nested, d') \<Rightarrow>
                     parseTableCell_loop tagName cell
                       (content @ (if content \<noteq> [] \<and> nested \<noteq> [] then '' '' else []) @ nested) d')
          | CharData c \<Rightarrow> parseTableCell_loop tagName cell (content @ c) d
          | EndElement n \<Rightarrow>
              if Local n = tagName then Inr (cell\<lparr>Text := TrimSpace content\<rparr>, d)
              else parseTableCell_loop tagName cell content d
          | _ \<Rightarrow> parseTableCell_loop tagName cell content d))"
  by pat_completeness auto
termination
  by (relation "measure (\<lambda>(tg, c, s, d). length d)")
     (auto dest: extractNestedText_length parseMacro_length)

definition parseTableCell :: "decoder \<Rightarrow> string \<Rightarrow> error + (Cell \<times> decoder)" where
  "parseTableCell d tagName = parseTableCell_loop tagName \<lparr>Text = [], Macro = None\<rparr> [] d"

lemma parseTableCell_loop_length:
  "parseTableCell_loop tg c s d = Inr (c', d') \<Longrightarrow> length d' \<le> length d"
proof (induction "length d" arbitrary: c s d rule: less_induct)
  case less
  show ?case
  proof (cases d)
    case Nil
    with less.prems show ?thesis by simp
  next
    case (Cons ev d0)
    have IH: "length d' \<le> length d"
      if "length d1 \<le> length d0" "parseTableCell_loop tg c1 s1 d1 = Inr (c', d')" for c1 s1 d1
    proof -
      from that Cons have "length d1 < length d" by simp
      from less.hyps [OF this that(2)] that(1) Cons show ?thesis by simp
    qed
    from less.prems Cons show ?thesis
      by (auto split: event.splits Token.splits if_splits sum.splits prod.splits
          dest: IH [OF extractNestedText_length] IH [OF parseMacro_length] IH [OF order_refl])
  qed
qed

lemma parseTableCell_length:
  "parseTableCell d tg = Inr (c, d') \<Longrightarrow> length d' \<le> length d"
  unfolding parseTableCell_def by (rule parseTableCell_loop_length)

function parseTableRow_loop :: "Row \<Rightarrow> bool \<Rightarrow> decoder \<Rightarrow> error + ((Row \<times> bool) \<times> decoder)" where
  "parseTableRow_loop row isHeader [] = Inr ((row, isHeader), [])"
| "parseTableRow_loop row isHeader (ev # d) =
     (case ev of
        SyntaxError e \<Rightarrow> Inl (XMLError e)
      | Tok t \<Rightarrow>
         (case t of
            StartElement n attrs \<Rightarrow>
              if Local n = ''th'' then
                (case parseTableCell d ''th'' of
                   Inl e \<Rightarrow> Inl e
                 | Inr (cell, d') \<Rightarrow>
                     parseTableRow_loop (row\<lparr>Cells := Cells row @ [cell]\<rparr>) True d')
              else if Local n = ''td'' then
                (case parseTableCell d ''td'' of
                   Inl e \<Rightarrow> Inl e
                 | Inr (cell, d') \<Rightarrow>
                     parseTableRow_loop (row\<lparr>Cells := Cells row @ [cell]\<rparr>) isHeader d')
              else
                (case skipElement d of
                   Inl e \<Rightarrow> Inl e
                 | Inr d' \<Rightarrow> parseTableRow_loop row isHeader d')
          | EndElement n \<Rightarrow>
              if Local n = ''tr'' then Inr ((row, isHeader), d)
              else parseTableRow_loop row isHeader d
          | _ \<Rightarrow> parseTableRow_loop row isHeader d))"
  by pat_completeness auto
termination
  by (relation "measure (\<lambda>(r, h, d). length d)")
     (auto dest: skipElement_length parseTableCell_length)

definition parseTableRow :: "decoder \<Rightarrow> error + ((Row \<times> bool) \<times> decoder)" where
  "parseTableRow d = parseTableRow_loop \<lparr>Cells = []\<rparr> False d"

lemma parseTableRow_loop_length:
  "parseTableRow_loop r h d = Inr (x, d') \<Longrightarrow> length d' \<le> length d"
proof (induction "length d" arbitrary: r h d rule: less_induct)
  case less
  show ?case
  proof (cases d)
    case Nil
    with less.prems show ?thesis by simp
  next
    case (Cons ev d0)
    have IH: "length d' \<le> length d"
      if "length d1 \<le> length d0" "parseTableRow_loop r1 h1 d1 = Inr (x, d')" for r1 h1 d1
    proof -
      from that Cons have "length d1 < length d" by simp
      from less.hyps [OF this that(2)] that(1) Cons show ?thesis by simp
    qed
    from less.prems Cons show ?thesis
      by (auto split: event.splits Token.splits if_splits sum.splits prod.splits
          dest: IH [OF parseTableCell_length] IH [OF skipElement_length] IH [OF order_refl])
  qed
qed

lemma parseTableRow_length: "parseTableRow d = Inr (x, d') \<Longrightarrow> length d' \<le> length d"
  unfolding parseTableRow_def by (rule parseTableRow_loop_length)

text \<open>The statements shared by \<open>parseTbody\<close> and \<open>parseTable\<close> after a row is read: a header
  row appends the text of each of its cells to \<open>table.Headers\<close>, any other row is appended to
  \<open>table.Rows\<close>. The table under construction is the pair of the two fields.\<close>

definition addRow :: "string list \<times> Row list \<Rightarrow> Row \<times> bool \<Rightarrow> string list \<times> Row list" where
  "addRow table r =
     (if snd r then (fst table @ map Text (Cells (fst r)), snd table)
      else (fst table, snd table @ [fst r]))"

function parseTbody :: "string list \<times> Row list \<Rightarrow> decoder \<Rightarrow> error + ((string list \<times> Row list) \<times> decoder)" where
  "parseTbody table [] = Inr (table, [])"
| "parseTbody table (ev # d) =
     (case ev of
        SyntaxError e \<Rightarrow> Inl (XMLError e)
      | Tok t \<Rightarrow>
         (case t of
            StartElement n attrs \<Rightarrow>
              if Local n = ''tr'' then
                (case parseTableRow d of
                   Inl e \<Rightarrow> Inl e
                 | Inr (r, d') \<Rightarrow> parseTbody (addRow table r) d')
              else
                (case skipElement d of
                   Inl e \<Rightarrow> Inl e
                 | Inr d' \<Rightarrow> parseTbody table d')
          | EndElement n \<Rightarrow>
              if Local n = ''tbody'' then Inr (table, d)
              else parseTbody table d
          | _ \<Rightarrow> parseTbody table d))"
  by pat_completeness auto
termination
  by (relation "measure (\<lambda>(t, d). length d)")
     (auto dest: skipElement_length parseTableRow_length)

lemma parseTbody_length:
  "parseTbody t d = Inr (x, d') \<Longrightarrow> length d' \<le> length d"
proof (induction "length d" arbitrary: t d rule: less_induct)
  case less
  show ?case
  proof (cases d)
    case Nil
    with less.prems show ?thesis by simp
  next
    case (Cons ev d0)
    have IH: "length d' \<le> length d"
      if "length d1 \<le> length d0" "parseTbody t1 d1 = Inr (x, d')" for t1 d1
    proof -
      from that Cons have "length d1 < length d" by simp
      from less.hyps [OF this that(2)] that(1) Cons show ?thesis by simp
    qed
    from less.prems Cons show ?thesis
      by (auto split: event.splits Token.splits if_splits sum.splits prod.splits
          dest: IH [OF parseTableRow_length] IH [OF skipElement_length] IH [OF order_refl])
  qed
qed

function parseTable_loop :: "string list \<times> Row list \<Rightarrow> decoder \<Rightarrow> error + ((string list \<times> Row list) \<times> decoder)" where
  "parseTable_loop table [] = Inr (table, [])"
| "parseTable_loop table (ev # d) =
     (case ev of
        SyntaxError e \<Rightarrow> Inl (XMLError e)
      | Tok t \<Rightarrow>
         (case t of
            StartElement n attrs \<Rightarrow>
              if Local n = ''tbody'' then
                (case parseTbody table d of
                   Inl e \<Rightarrow> Inl e
                 | Inr (table', d') \<Rightarrow> parseTable_loop table' d')
              else if Local n = ''tr'' then
                (case parseTableRow d of
                   Inl e \<Rightarrow> Inl e
                 | Inr (r, d') \<Rightarrow> parseTable_loop (addRow table r) d')
              else
                (case skipElement d of
                   Inl e \<Rightarrow> Inl e
                 | Inr d' \<Rightarrow> parseTable_loop table d')
          | EndElement n \<Rightarrow>
              if Local n = ''table'' then Inr (table, d)
              else parseTable_loop table d
          | _ \<Rightarrow> parseTable_loop table d))"
  by pat_completeness auto
termination
  by (relation "measure (\<lambda>(t, d). length d)")
     (auto dest: skipElement_length parseTableRow_length parseTbody_length)

definition parseTable :: "decoder \<Rightarrow> error + (Block \<times> decoder)" where
  "parseTable d =
     (case parseTable_loop ([], []) d of
        Inl e \<Rightarrow> Inl e
      | Inr (table, d') \<Rightarrow> Inr (Table (fst table) (snd table), d'))"

lemma parseTable_loop_length:
  "parseTable_loop t d = Inr (x, d') \<Longrightarrow> length d' \<le> length d"
proof (induction "length d" arbitrary: t d rule: less_induct)
  case less
  show ?case
  proof (cases d)
    case Nil
    with less.prems show ?thesis by simp
  next
    case (Cons ev d0)
    have IH: "length d' \<le> length d"
      if "length d1 \<le> length d0" "parseTable_loop t1 d1 = Inr (x, d')" for t1 d1
    proof -
      from that Cons have "length d1 < length d" by simp
      from less.hyps [OF this that(2)] that(1) Cons show ?thesis by simp
    qed
    from less.prems Cons show ?thesis
      by (auto split: event.splits Token.splits if_splits sum.splits prod.splits
          dest: IH [OF parseTbody_length] IH [OF parseTableRow_length] IH [OF skipElement_length] IH [OF order_refl])
  qed
qed

lemma parseTable_length: "parseTable d = Inr (b, d') \<Longrightarrow> length d' \<le> length d"
  unfolding parseTable_def
  by (auto split: sum.splits prod.splits dest: parseTable_loop_length)

text \<open>\<open>parseParagraph\<close>, \<open>parseHeading\<close> and \<open>parseListItem\<close> run the same loop; they differ in
  the test that recognises the end tag. The loop returns the text with a flag telling
  whether it left through the end tag (the text is then trimmed) or at \<open>io.EOF\<close>.\<close>

function parseParagraph_loop :: "string \<Rightarrow> decoder \<Rightarrow> error + (string \<times> decoder)" where
  "parseParagraph_loop content [] = Inr (content, [])"
| "parseParagraph_loop content (ev # d) =
     (case ev of
        SyntaxError e \<Rightarrow> Inl (XMLError e)
      | Tok t \<Rightarrow>
         (case t of
            CharData c \<Rightarrow> parseParagraph_loop (content @ c) d
          | EndElement n \<Rightarrow>
              if Local n = ''p'' then Inr (TrimSpace content, d)
              else parseParagraph_loop content d
          | StartElement n attrs \<Rightarrow>
             (case extractNestedText d of
                Inl e \<Rightarrow> Inl e
              | Inr (nested, d') \<Rightarrow> parseParagraph_loop (content @ nested) d')
          | _ \<Rightarrow> parseParagraph_loop content d))"
  by pat_completeness auto
termination
  by (relation "measure (\<lambda>(c, d). length d)") (auto dest: extractNestedText_length)

definition parseParagraph :: "decoder \<Rightarrow> error + (Block \<times> decoder)" where
  "parseParagraph d =
     (case parseParagraph_loop [] d of
        Inl e \<Rightarrow> Inl e
      | Inr (text, d') \<Rightarrow> Inr (Paragraph text, d'))"

lemma parseParagraph_loop_length:
  "parseParagraph_loop c d = Inr (x, d') \<Longrightarrow> length d' \<le> length d"
proof (induction "length d" arbitrary: c d rule: less_induct)
  case less
  show ?case
  proof (cases d)
    case Nil
    with less.prems show ?thesis by simp
  next
    case (Cons ev d0)
    have IH: "length d' \<le> length d"
      if "length d1 \<le> length d0" "parseParagraph_loop c1 d1 = Inr (x, d')" for c1 d1
    proof -
      from that Cons have "length d1 < length d" by simp
      from less.hyps [OF this that(2)] that(1) Cons show ?thesis by simp
    qed
    from less.prems Cons show ?thesis
      by (auto split: event.splits Token.splits if_splits sum.splits prod.splits
          dest: IH [OF extractNestedText_length] IH [OF order_refl])
  qed
qed

function parseHeading_loop :: "string \<Rightarrow> decoder \<Rightarrow> error + (string \<times> decoder)" where
  "parseHeading_loop content [] = Inr (content, [])"
| "parseHeading_loop content (ev # d) =
     (case ev of
        SyntaxError e \<Rightarrow> Inl (XMLError e)
      | Tok t \<Rightarrow>
         (case t of
            CharData c \<Rightarrow> parseHeading_loop (content @ c) d
          | EndElement n \<Rightarrow>
              if prefix ''h'' (Local n) then Inr (TrimSpace content, d)
              else parseHeading_loop content d
          | StartElement n attrs \<Rightarrow>
             (case extractNestedText d of
                Inl e \<Rightarrow> Inl e
              | Inr (nested, d') \<Rightarrow> parseHeading_loop (content @ nested) d')
          | _ \<Rightarrow> parseHeading_loop content d))"
  by pat_completeness auto
termination
  by (relation "measure (\<lambda>(c, d). length d)") (auto dest: extractNestedText_length)

text \<open>\<open>level := int(start.Name.Local[1] - '0')\<close>: a subtraction of bytes, which wraps.
  \<open>parseElement\<close> calls \<open>parseHeading\<close> on the names \<open>h1\<close> to \<open>h6\<close> only, so the index is in
  range.\<close>

definition headingLevel :: "string \<Rightarrow> int" where
  "headingLevel local = int ((of_char (local ! 1) + 256 - of_char CHR ''0'') mod 256)"

definition parseHeading :: "decoder \<Rightarrow> Name \<Rightarrow> error + (Block \<times> decoder)" where
  "parseHeading d start =
     (case parseHeading_loop [] d of
        Inl e \<Rightarrow> Inl e
      | Inr (text, d') \<Rightarrow> Inr (Heading (headingLevel (Local start)) text, d'))"

lemma parseHeading_loop_length:
  "parseHeading_loop c d = Inr (x, d') \<Longrightarrow> length d' \<le> length d"
proof (induction "length d" arbitrary: c d rule: less_induct)
  case less
  show ?case
  proof (cases d)
    case Nil
    with less.prems show ?thesis by simp
  next
    case (Cons ev d0)
    have IH: "length d' \<le> length d"
      if "length d1 \<le> length d0" "parseHeading_loop c1 d1 = Inr (x, d')" for c1 d1
    proof -
      from that Cons have "length d1 < length d" by simp
      from less.hyps [OF this that(2)] that(1) Cons show ?thesis by simp
    qed
    from less.prems Cons show ?thesis
      by (auto split: event.splits Token.splits if_splits sum.splits prod.splits
          dest: IH [OF extractNestedText_length] IH [OF order_refl])
  qed
qed

function parseListItem_loop :: "string \<Rightarrow> decoder \<Rightarrow> error + (string \<times> decoder)" where
  "parseListItem_loop content [] = Inr (content, [])"
| "parseListItem_loop content (ev # d) =
     (case ev of
        SyntaxError e \<Rightarrow> Inl (XMLError e)
      | Tok t \<Rightarrow>
         (case t of
            CharData c \<Rightarrow> parseListItem_loop (content @ c) d
          | EndElement n \<Rightarrow>
              if Local n = ''li'' then Inr (TrimSpace content, d)
              else parseListItem_loop content d
          | StartElement n attrs \<Rightarrow>
             (case extractNestedText d of
                Inl e \<Rightarrow> Inl e
              | Inr (nested, d') \<Rightarrow> parseListItem_loop (content @ nested) d')
          | _ \<Rightarrow> parseListItem_loop content d))"
  by pat_completeness auto
termination
  by (relation "measure (\<lambda>(c, d). length d)") (auto dest: extractNestedText_length)

definition parseListItem :: "decoder \<Rightarrow> error + (ListItem \<times> decoder)" where
  "parseListItem d =
     (case parseListItem_loop [] d of
        Inl e \<Rightarrow> Inl e
      | Inr (text, d') \<Rightarrow> Inr (ListItem text, d'))"

lemma parseListItem_loop_length:
  "parseListItem_loop c d = Inr (x, d') \<Longrightarrow> length d' \<le> length d"
proof (induction "length d" arbitrary: c d rule: less_induct)
  case less
  show ?case
  proof (cases d)
    case Nil
    with less.prems show ?thesis by simp
  next
    case (Cons ev d0)
    have IH: "length d' \<le> length d"
      if "length d1 \<le> length d0" "parseListItem_loop c1 d1 = Inr (x, d')" for c1 d1
    proof -
      from that Cons have "length d1 < length d" by simp
      from less.hyps [OF this that(2)] that(1) Cons show ?thesis by simp
    qed
    from less.prems Cons show ?thesis
      by (auto split: event.splits Token.splits if_splits sum.splits prod.splits
          dest: IH [OF extractNestedText_length] IH [OF order_refl])
  qed
qed

lemma parseListItem_length: "parseListItem d = Inr (x, d') \<Longrightarrow> length d' \<le> length d"
  unfolding parseListItem_def
  by (auto split: sum.splits prod.splits dest: parseListItem_loop_length)

text \<open>\<open>parseBulletList\<close> and \<open>parseNumberedList\<close> are one loop, up to the name of the end
  tag (\<open>ul\<close> or \<open>ol\<close>) and the type of the list they build.\<close>

function parseList_loop :: "string \<Rightarrow> ListItem list \<Rightarrow> decoder \<Rightarrow> error + (ListItem list \<times> decoder)" where
  "parseList_loop endTag items [] = Inr (items, [])"
| "parseList_loop endTag items (ev # d) =
     (case ev of
        SyntaxError e \<Rightarrow> Inl (XMLError e)
      | Tok t \<Rightarrow>
         (case t of
            StartElement n attrs \<Rightarrow>
              if Local n = ''li'' then
                (case parseListItem d of
                   Inl e \<Rightarrow> Inl e
                 | Inr (item, d') \<Rightarrow> parseList_loop endTag (items @ [item]) d')
              else
                (case skipElement d of
                   Inl e \<Rightarrow> Inl e
                 | Inr d' \<Rightarrow> parseList_loop endTag items d')
          | EndElement n \<Rightarrow>
              if Local n = endTag then Inr (items, d)
              else parseList_loop endTag items d
          | _ \<Rightarrow> parseList_loop endTag items d))"
  by pat_completeness auto
termination
  by (relation "measure (\<lambda>(e, i, d). length d)")
     (auto dest: skipElement_length parseListItem_length)

definition parseBulletList :: "decoder \<Rightarrow> error + (Block \<times> decoder)" where
  "parseBulletList d =
     (case parseList_loop ''ul'' [] d of
        Inl e \<Rightarrow> Inl e
      | Inr (items, d') \<Rightarrow> Inr (BulletList items, d'))"

definition parseNumberedList :: "decoder \<Rightarrow> error + (Block \<times> decoder)" where
  "parseNumberedList d =
     (case parseList_loop ''ol'' [] d of
        Inl e \<Rightarrow> Inl e
      | Inr (items, d') \<Rightarrow> Inr (NumberedList items, d'))"

lemma parseList_loop_length:
  "parseList_loop e i d = Inr (x, d') \<Longrightarrow> length d' \<le> length d"
proof (induction "length d" arbitrary: e i d rule: less_induct)
  case less
  show ?case
  proof (cases d)
    case Nil
    with less.prems show ?thesis by simp
  next
    case (Cons ev d0)
    have IH: "length d' \<le> length d"
      if "length d1 \<le> length d0" "parseList_loop e1 i1 d1 = Inr (x, d')" for e1 i1 d1
    proof -
      from that Cons have "length d1 < length d" by simp
      from less.hyps [OF this that(2)] that(1) Cons show ?thesis by simp
    qed
    from less.prems Cons show ?thesis
      by (auto split: event.splits Token.splits if_splits sum.splits prod.splits
          dest: IH [OF parseListItem_length] IH [OF skipElement_length] IH [OF order_refl])
  qed
qed

text \<open>\<open>parseElement\<close> returns the block that a specialised function built, as a value of
  the interface \<open>Block\<close>; \<open>None\<close> is its \<open>nil\<close> result for an element that gives no block.\<close>

definition asBlock :: "error + (Block \<times> decoder) \<Rightarrow> error + (Block option \<times> decoder)" where
  "asBlock r = (case r of Inl e \<Rightarrow> Inl e | Inr (b, d) \<Rightarrow> Inr (Some b, d))"

definition parseElement :: "decoder \<Rightarrow> Name \<Rightarrow> Attr list \<Rightarrow> error + (Block option \<times> decoder)" where
  "parseElement d start startAttr =
     (if Local start = ''root'' then Inr (None, d)
      else if Local start = ''table'' then asBlock (parseTable d)
      else if Local start = ''p'' then asBlock (parseParagraph d)
      else if Local start \<in> {''h1'', ''h2'', ''h3'', ''h4'', ''h5'', ''h6''} then
        asBlock (parseHeading d start)
      else if Local start = ''ul'' then asBlock (parseBulletList d)
      else if Local start = ''ol'' then asBlock (parseNumberedList d)
      else if Local start = ''hr'' then Inr (Some HorizontalRule, d)
      else if Local start = ''structured-macro'' then
        (case parseMacro d startAttr of
           Inl e \<Rightarrow> Inl e
         | Inr (macro, d') \<Rightarrow> Inr (Some (MacroBlock macro), d'))
      else
        (case skipElement d of
           Inl e \<Rightarrow> Inl e
         | Inr d' \<Rightarrow> Inr (None, d')))"

lemma parseElement_length:
  "parseElement d n a = Inr (b, d') \<Longrightarrow> length d' \<le> length d"
  unfolding parseElement_def parseParagraph_def parseHeading_def parseBulletList_def
    parseNumberedList_def asBlock_def
  by (auto split: if_splits sum.splits prod.splits
      dest: parseTable_length parseParagraph_loop_length parseHeading_loop_length
        parseList_loop_length parseMacro_length skipElement_length)

text \<open>The loop of \<open>Parse\<close>. An error of the decoder is wrapped here ("parse error: ..."); an
  error of \<open>parseElement\<close> is returned as it is.\<close>

function Parse_loop :: "Block list \<Rightarrow> decoder \<Rightarrow> error + Page" where
  "Parse_loop blocks [] = Inr (Page blocks)"
| "Parse_loop blocks (ev # d) =
     (case ev of
        SyntaxError e \<Rightarrow> Inl (WrappedParseError e)
      | Tok t \<Rightarrow>
         (case t of
            StartElement n attrs \<Rightarrow>
             (case parseElement d n attrs of
                Inl e \<Rightarrow> Inl e
              | Inr (block, d') \<Rightarrow>
                 (case block of
                    None \<Rightarrow> Parse_loop blocks d'
                  | Some b \<Rightarrow> Parse_loop (blocks @ [b]) d'))
          | _ \<Rightarrow> Parse_loop blocks d))"
  by pat_completeness auto
termination
  by (relation "measure (\<lambda>(b, d). length d)") (auto dest: parseElement_length)

section \<open>The validator (validate.go)\<close>

text \<open>
  \<open>AllowedMacros\<close> and \<open>ForbiddenTags\<close> are Go maps from string to bool, kept as lists of
  entries with distinct keys. \<open>m[k]\<close> is \<open>false\<close> for a key that is not in the map, and
  \<open>len(m) > 0\<close> holds when the map has an entry.
\<close>

record ValidatorOptions =
  RequireTableTbody :: bool
  AllowedMacros :: "(string \<times> bool) list"
  ForbiddenTags :: "(string \<times> bool) list"

definition index :: "(string \<times> bool) list \<Rightarrow> string \<Rightarrow> bool" where
  "index m k = (case map_of m k of None \<Rightarrow> False | Some b \<Rightarrow> b)"

definition ForbiddenTagsDefault :: "(string \<times> bool) list" where
  "ForbiddenTagsDefault =
     [(''thead'', True), (''tfoot'', True), (''colgroup'', True), (''col'', True),
      (''div'', True), (''span'', True), (''script'', True), (''style'', True),
      (''iframe'', True), (''form'', True), (''input'', True), (''button'', True)]"

definition DefaultValidatorOptions :: ValidatorOptions where
  "DefaultValidatorOptions =
     \<lparr>RequireTableTbody = True, AllowedMacros = [], ForbiddenTags = ForbiddenTagsDefault\<rparr>"

fun getMacroName :: "Attr list \<Rightarrow> string" where
  "getMacroName [] = []"
| "getMacroName (attr # el) =
     (if Local (AttrName attr) = ''name'' then Value attr else getMacroName el)"

text \<open>The loop of \<open>ValidateWithOptions\<close>, with its two variables \<open>tableDepth\<close> and
  \<open>tbodyFound\<close>. The result \<open>Inr ()\<close> is the \<open>nil\<close> error.\<close>

fun Validate_loop :: "ValidatorOptions \<Rightarrow> int \<Rightarrow> bool \<Rightarrow> decoder \<Rightarrow> error + unit" where
  "Validate_loop opts tableDepth tbodyFound [] = Inr ()"
| "Validate_loop opts tableDepth tbodyFound (ev # d) =
     (case ev of
        SyntaxError e \<Rightarrow> Inl (ValidationError (''invalid XML: '' @ e) [])
      | Tok t \<Rightarrow>
         (case t of
            StartElement n attrs \<Rightarrow>
              if index (ForbiddenTags opts) (Local n) then
                Inl (ValidationError ''forbidden tag'' (Local n))
              else if Local n = ''structured-macro'' \<and> AllowedMacros opts \<noteq> [] \<and>
                      getMacroName attrs \<noteq> [] \<and>
                      \<not> index (AllowedMacros opts) (getMacroName attrs) then
                Inl (ValidationError ''disallowed macro'' (getMacroName attrs))
              else
                (let tableDepth' = (if Local n = ''table'' then tableDepth + 1 else tableDepth);
                     tbodyFound' = (if Local n = ''table'' then False else tbodyFound);
                     tbodyFound'' = (if Local n = ''tbody'' \<and> tableDepth' > 0 then True
                                    else tbodyFound')
                 in if Local n = ''tr'' \<and> tableDepth' > 0 \<and> \<not> tbodyFound'' \<and>
                       RequireTableTbody opts then
                      Inl (ValidationError ''<tr> must be inside <tbody>'' ''tr'')
                    else Validate_loop opts tableDepth' tbodyFound'' d)
          | EndElement n \<Rightarrow>
              if Local n = ''table'' then
                (if \<not> tbodyFound \<and> RequireTableTbody opts then
                   Inl (ValidationError ''<table> must contain <tbody>'' ''table'')
                 else Validate_loop opts (tableDepth - 1) tbodyFound d)
              else Validate_loop opts tableDepth tbodyFound d
          | _ \<Rightarrow> Validate_loop opts tableDepth tbodyFound d))"

section \<open>The renderer (render.go)\<close>

text \<open>\<open>html.EscapeString\<close> replaces the five characters \<open>&\<close>, \<open>'\<close>, \<open><\<close>, \<open>>\<close> and \<open>"\<close>.\<close>

definition escapeChar :: "char \<Rightarrow> string" where
  "escapeChar c =
     (if c = CHR ''&'' then ''&amp;''
      else if c = CHR 0x27 then ''&#39;''
      else if c = CHR ''<'' then ''&lt;''
      else if c = CHR ''>'' then ''&gt;''
      else if c = CHR 0x22 then ''&#34;''
      else [c])"

definition EscapeString :: "string \<Rightarrow> string" where
  "EscapeString s = concat (map escapeChar s)"

text \<open>The verb \<open>%d\<close> of \<open>fmt.Sprintf\<close>: an integer in decimal.\<close>

fun natToDec :: "nat \<Rightarrow> string" where
  "natToDec n =
     (if n < 10 then [''0123456789'' ! n]
      else natToDec (n div 10) @ [''0123456789'' ! (n mod 10)])"

declare natToDec.simps [simp del]

definition intToDec :: "int \<Rightarrow> string" where
  "intToDec i = (if i < 0 then ''-'' @ natToDec (nat (- i)) else natToDec (nat i))"

text \<open>\<open>iter\<close> is the order in which \<open>for key, val := range m.Params\<close> visits the entries of
  the map.\<close>

definition renderParam :: "string \<times> string \<Rightarrow> string" where
  "renderParam kv =
     ''<ac:parameter ac:name='' @ [CHR 0x22] @ EscapeString (fst kv) @ [CHR 0x22] @ ''>'' @
     EscapeString (snd kv) @ ''</ac:parameter>''"

definition RenderMacro ::
    "((string \<times> string) list \<Rightarrow> (string \<times> string) list) \<Rightarrow> Macro \<Rightarrow> string" where
  "RenderMacro iter m =
     ''<ac:structured-macro ac:name='' @ [CHR 0x22] @ EscapeString (Name m) @ [CHR 0x22] @ ''>'' @
     concat (map renderParam (iter (Params m))) @
     (if Body m \<noteq> [] then ''<ac:rich-text-body>'' @ Body m @ ''</ac:rich-text-body>'' else []) @
     ''</ac:structured-macro>''"

definition renderCell ::
    "((string \<times> string) list \<Rightarrow> (string \<times> string) list) \<Rightarrow> Cell \<Rightarrow> string" where
  "renderCell iter c =
     (case Macro c of Some m \<Rightarrow> RenderMacro iter m | None \<Rightarrow> EscapeString (Text c))"

definition renderRow ::
    "((string \<times> string) list \<Rightarrow> (string \<times> string) list) \<Rightarrow> Row \<Rightarrow> string" where
  "renderRow iter row =
     ''<tr>'' @ concat (map (\<lambda>cell. ''<td>'' @ renderCell iter cell @ ''</td>'') (Cells row)) @
     ''</tr>''"

definition renderTable ::
    "((string \<times> string) list \<Rightarrow> (string \<times> string) list) \<Rightarrow> string list \<Rightarrow> Row list \<Rightarrow> string" where
  "renderTable iter headers rows =
     ''<table><tbody>'' @
     (if headers \<noteq> [] then
        ''<tr>'' @ concat (map (\<lambda>h. ''<th>'' @ EscapeString h @ ''</th>'') headers) @ ''</tr>''
      else []) @
     concat (map (renderRow iter) rows) @
     ''</tbody></table>''"

definition renderParagraph :: "string \<Rightarrow> string" where
  "renderParagraph text = ''<p>'' @ EscapeString text @ ''</p>''"

definition renderHeading :: "int \<Rightarrow> string \<Rightarrow> error + string" where
  "renderHeading level text =
     (if level < 1 \<or> level > 6 then Inl (InvalidHeadingLevel level)
      else Inr (''<h'' @ intToDec level @ ''>'' @ EscapeString text @ ''</h'' @ intToDec level @ ''>''))"

definition renderItems :: "ListItem list \<Rightarrow> string" where
  "renderItems items = concat (map (\<lambda>item. ''<li>'' @ EscapeString (ItemText item) @ ''</li>'') items)"

definition renderBulletList :: "ListItem list \<Rightarrow> string" where
  "renderBulletList items = ''<ul>'' @ renderItems items @ ''</ul>''"

definition renderNumberedList :: "ListItem list \<Rightarrow> string" where
  "renderNumberedList items = ''<ol>'' @ renderItems items @ ''</ol>''"

definition renderCodeBlock :: "string \<Rightarrow> string \<Rightarrow> string" where
  "renderCodeBlock language code =
     ''<ac:structured-macro ac:name='' @ [CHR 0x22] @ ''code'' @ [CHR 0x22] @ ''>'' @
     (if language \<noteq> [] then
        ''<ac:parameter ac:name='' @ [CHR 0x22] @ ''language'' @ [CHR 0x22] @ ''>'' @
        EscapeString language @ ''</ac:parameter>''
      else []) @
     ''<ac:plain-text-body><![CDATA['' @ code @ '']]></ac:plain-text-body>'' @
     ''</ac:structured-macro>''"

fun RenderBlock ::
    "((string \<times> string) list \<Rightarrow> (string \<times> string) list) \<Rightarrow> Block \<Rightarrow> error + string" where
  "RenderBlock iter (Table headers rows) = Inr (renderTable iter headers rows)"
| "RenderBlock iter (Paragraph text) = Inr (renderParagraph text)"
| "RenderBlock iter (Heading level text) = renderHeading level text"
| "RenderBlock iter (MacroBlock m) = Inr (RenderMacro iter m)"
| "RenderBlock iter (BulletList items) = Inr (renderBulletList items)"
| "RenderBlock iter (NumberedList items) = Inr (renderNumberedList items)"
| "RenderBlock iter (CodeBlock language code) = Inr (renderCodeBlock language code)"
| "RenderBlock iter HorizontalRule = Inr ''<hr/>''"

fun Render_loop ::
    "((string \<times> string) list \<Rightarrow> (string \<times> string) list) \<Rightarrow> string \<Rightarrow> Block list \<Rightarrow> error + string" where
  "Render_loop iter buf [] = Inr buf"
| "Render_loop iter buf (block # blocks) =
     (case RenderBlock iter block of
        Inl e \<Rightarrow> Inl e
      | Inr s \<Rightarrow> Render_loop iter (buf @ s) blocks)"

definition Render ::
    "((string \<times> string) list \<Rightarrow> (string \<times> string) list) \<Rightarrow> Page \<Rightarrow> error + string" where
  "Render iter page = Render_loop iter [] (Blocks page)"

section \<open>The decoder of encoding/xml\<close>

text \<open>
  \<open>Parse\<close> and \<open>ValidateWithOptions\<close> build their decoder with \<open>xml.NewDecoder\<close> on the
  wrapped input and set its field \<open>Entity\<close> to the table \<open>htmlEntities\<close>. The decoder is the
  standard library's; this section models its method \<open>Token\<close> in its default strict mode on
  byte strings, to the extent the program's inputs need:
  \<^item> start tags with attributes, end tags, empty-element tags, character data with the
    predefined, the numeric and the \<open>Entity\<close> references, CDATA sections and comments are read
    as the library reads them, with its checks (matching end tags, \<open>]]>\<close> in text, valid UTF-8,
    the character range of XML);
  \<^item> a name is read as the library reads it when it is ASCII. The library admits further
    letters by tables of Unicode ranges; here a name with a byte outside ASCII, a processing
    instruction and a directive end the token sequence with an error that says so
    (\<open>unmodelled\<close>);
  \<^item> the library replaces a name's prefix by the URL the prefix is bound to. The program
    reads \<open>Local\<close> only, and \<open>Space\<close> is left as the prefix here.
  The table \<open>htmlEntities\<close> is the argument \<open>Entity\<close> of the functions below.
\<close>

type_synonym rune = nat

definition RuneError :: rune where
  "RuneError = 0xFFFD"

definition cont :: "char \<Rightarrow> bool" where
  "cont c \<longleftrightarrow> 0x80 \<le> (of_char c :: nat) \<and> (of_char c :: nat) \<le> 0xBF"

text \<open>\<open>utf8.DecodeRune\<close>: the first rune of a byte string and its width in bytes;
  \<open>(RuneError, 1)\<close> for an encoding that is not valid, \<open>(RuneError, 0)\<close> for the empty string.\<close>

fun DecodeRune :: "string \<Rightarrow> rune \<times> nat" where
  "DecodeRune [] = (RuneError, 0)"
| "DecodeRune (c # cs) =
     (let b0 = (of_char c :: nat) in
      if b0 < 0x80 then (b0, 1)
      else if 0xC2 \<le> b0 \<and> b0 \<le> 0xDF then
        (case cs of
           c1 # _ \<Rightarrow>
             if cont c1 then ((b0 mod 32) * 64 + of_char c1 mod 64, 2) else (RuneError, 1)
         | _ \<Rightarrow> (RuneError, 1))
      else if 0xE0 \<le> b0 \<and> b0 \<le> 0xEF then
        (case cs of
           c1 # c2 # _ \<Rightarrow>
             if (if b0 = 0xE0 then 0xA0 else 0x80) \<le> (of_char c1 :: nat) \<and>
                (of_char c1 :: nat) \<le> (if b0 = 0xED then 0x9F else 0xBF) \<and> cont c2
             then ((b0 mod 16) * 4096 + (of_char c1 mod 64) * 64 + of_char c2 mod 64, 3)
             else (RuneError, 1)
         | _ \<Rightarrow> (RuneError, 1))
      else if 0xF0 \<le> b0 \<and> b0 \<le> 0xF4 then
        (case cs of
           c1 # c2 # c3 # _ \<Rightarrow>
             if (if b0 = 0xF0 then 0x90 else 0x80) \<le> (of_char c1 :: nat) \<and>
                (of_char c1 :: nat) \<le> (if b0 = 0xF4 then 0x8F else 0xBF) \<and> cont c2 \<and> cont c3
             then ((b0 mod 8) * 262144 + (of_char c1 mod 64) * 4096 +
                   (of_char c2 mod 64) * 64 + of_char c3 mod 64, 4)
             else (RuneError, 1)
         | _ \<Rightarrow> (RuneError, 1))
      else (RuneError, 1))"

text \<open>The conversion \<open>string(rune(n))\<close>: the UTF-8 encoding of a code point, and that of
  U+FFFD for a surrogate.\<close>

definition encodeRune :: "rune \<Rightarrow> string" where
  "encodeRune r =
     (if r < 0x80 then [char_of r]
      else if r < 0x800 then [char_of (0xC0 + r div 64), char_of (0x80 + r mod 64)]
      else if 0xD800 \<le> r \<and> r \<le> 0xDFFF then [CHR 0xEF, CHR 0xBF, CHR 0xBD]
      else if r < 0x10000 then
        [char_of (0xE0 + r div 4096), char_of (0x80 + (r div 64) mod 64), char_of (0x80 + r mod 64)]
      else
        [char_of (0xF0 + r div 262144), char_of (0x80 + (r div 4096) mod 64),
         char_of (0x80 + (r div 64) mod 64), char_of (0x80 + r mod 64)])"

definition isInCharacterRange :: "rune \<Rightarrow> bool" where
  "isInCharacterRange r \<longleftrightarrow>
     r = 0x09 \<or> r = 0x0A \<or> r = 0x0D \<or> (0x20 \<le> r \<and> r \<le> 0xD7FF) \<or>
     (0xE000 \<le> r \<and> r \<le> 0xFFFD) \<or> (0x10000 \<le> r \<and> r \<le> 0x10FFFF)"

lemma DecodeRune_width: "s \<noteq> [] \<Longrightarrow> 0 < snd (DecodeRune s)"
  by (cases s) (auto simp: Let_def split: list.splits)

text \<open>The loop at the end of \<open>Decoder.text\<close> that inspects each rune of the data read: the
  message of the error it finds, if any.\<close>

function checkRunes :: "string \<Rightarrow> string option" where
  "checkRunes buf =
     (if buf = [] then None
      else if DecodeRune buf = (RuneError, 1) then Some ''invalid UTF-8''
      else if \<not> isInCharacterRange (fst (DecodeRune buf)) then Some ''illegal character code''
      else checkRunes (drop (snd (DecodeRune buf)) buf))"
  by pat_completeness auto
termination
  by (relation "measure length") (auto dest: DecodeRune_width intro: diff_less)

declare checkRunes.simps [simp del]

definition isNameByte :: "char \<Rightarrow> bool" where
  "isNameByte c \<longleftrightarrow>
     (of_char CHR ''A'' \<le> (of_char c :: nat) \<and> (of_char c :: nat) \<le> of_char CHR ''Z'') \<or>
     (of_char CHR ''a'' \<le> (of_char c :: nat) \<and> (of_char c :: nat) \<le> of_char CHR ''z'') \<or>
     (of_char CHR ''0'' \<le> (of_char c :: nat) \<and> (of_char c :: nat) \<le> of_char CHR ''9'') \<or>
     c = CHR ''_'' \<or> c = CHR '':'' \<or> c = CHR ''.'' \<or> c = CHR ''-''"

definition isNameStart :: "char \<Rightarrow> bool" where
  "isNameStart c \<longleftrightarrow>
     (of_char CHR ''A'' \<le> (of_char c :: nat) \<and> (of_char c :: nat) \<le> of_char CHR ''Z'') \<or>
     (of_char CHR ''a'' \<le> (of_char c :: nat) \<and> (of_char c :: nat) \<le> of_char CHR ''z'') \<or>
     c = CHR ''_'' \<or> c = CHR '':''"

definition nameByte :: "char \<Rightarrow> bool" where
  "nameByte c \<longleftrightarrow> \<not> ((of_char c :: nat) < 0x80 \<and> \<not> isNameByte c)"

text \<open>A reading function returns what it read with the rest of the input, or the message
  of a syntax error. \<open>readName\<close> reads bytes as long as they are name bytes or outside ASCII;
  the input ending inside a name is an error.\<close>

definition readName :: "string \<Rightarrow> string + (string \<times> string)" where
  "readName s =
     (case s of
        [] \<Rightarrow> Inl ''unexpected EOF''
      | b # _ \<Rightarrow>
          if \<not> nameByte b then Inl ''expected name''
          else if dropWhile nameByte s = [] then Inl ''unexpected EOF''
          else Inr (takeWhile nameByte s, dropWhile nameByte s))"

text \<open>\<open>isName\<close> on a name that \<open>readName\<close> read, all of whose bytes are ASCII: the first
  byte must be a letter, \<open>_\<close> or \<open>:\<close>.\<close>

definition name :: "string \<Rightarrow> string + (string \<times> string)" where
  "name s =
     (case readName s of
        Inl e \<Rightarrow> Inl e
      | Inr (nm, rest) \<Rightarrow>
          if list_ex (\<lambda>c. 0x80 \<le> (of_char c :: nat)) nm then Inl ''unmodelled: name outside ASCII''
          else if \<not> isNameStart (hd nm) then Inl (''invalid XML name: '' @ nm)
          else Inr (nm, rest))"

definition nsname :: "string \<Rightarrow> string + (Name \<times> string)" where
  "nsname s =
     (case name s of
        Inl e \<Rightarrow> Inl e
      | Inr (nm, rest) \<Rightarrow>
          if count_list nm CHR '':'' > 1 then Inl ''expected name''
          else if CHR '':'' \<notin> set nm \<or> takeWhile (\<lambda>c. c \<noteq> CHR '':'') nm = [] \<or>
                  tl (dropWhile (\<lambda>c. c \<noteq> CHR '':'') nm) = [] then
            Inr (XName [] nm, rest)
          else
            Inr (XName (takeWhile (\<lambda>c. c \<noteq> CHR '':'') nm)
                   (tl (dropWhile (\<lambda>c. c \<noteq> CHR '':'') nm)), rest))"

lemma readName_length: "readName s = Inr (nm, rest) \<Longrightarrow> length rest < length s"
  by (cases s)
     (auto simp: readName_def split: if_splits intro: le_imp_less_Suc length_dropWhile_le)

lemma name_length: "name s = Inr (nm, rest) \<Longrightarrow> length rest < length s"
  by (auto simp: name_def split: sum.splits if_splits dest: readName_length)

lemma nsname_length: "nsname s = Inr (nm, rest) \<Longrightarrow> length rest < length s"
  by (auto simp: nsname_def split: sum.splits if_splits dest: name_length)

text \<open>Entity references. The decoder knows \<open>lt\<close>, \<open>gt\<close>, \<open>amp\<close>, \<open>apos\<close> and \<open>quot\<close>; any other
  name is looked up in its field \<open>Entity\<close>. A numeric reference is decimal or, after \<open>x\<close>,
  hexadecimal. In strict mode a reference that cannot be resolved is a syntax error.\<close>

definition entityTable :: "(string \<times> string) list" where
  "entityTable =
     [(''lt'', ''<''), (''gt'', ''>''), (''amp'', ''&''), (''apos'', [CHR 0x27]),
      (''quot'', [CHR 0x22])]"

definition isDigit :: "nat \<Rightarrow> char \<Rightarrow> bool" where
  "isDigit base b \<longleftrightarrow>
     (of_char CHR ''0'' \<le> (of_char b :: nat) \<and> (of_char b :: nat) \<le> of_char CHR ''9'') \<or>
     (base = 16 \<and> of_char CHR ''a'' \<le> (of_char b :: nat) \<and> (of_char b :: nat) \<le> of_char CHR ''f'') \<or>
     (base = 16 \<and> of_char CHR ''A'' \<le> (of_char b :: nat) \<and> (of_char b :: nat) \<le> of_char CHR ''F'')"

definition digitVal :: "char \<Rightarrow> nat" where
  "digitVal b =
     (if (of_char b :: nat) \<le> of_char CHR ''9'' then of_char b - of_char CHR ''0''
      else if (of_char b :: nat) \<le> of_char CHR ''F'' then of_char b - of_char CHR ''A'' + 10
      else of_char b - of_char CHR ''a'' + 10)"

definition parseUint :: "nat \<Rightarrow> string \<Rightarrow> nat" where
  "parseUint base ds = foldl (\<lambda>n b. n * base + digitVal b) 0 ds"

definition numericEntity :: "nat \<Rightarrow> string \<Rightarrow> string + (string \<times> string)" where
  "numericEntity base s =
     (case dropWhile (isDigit base) s of
        [] \<Rightarrow> Inl ''unexpected EOF''
      | b # rest \<Rightarrow>
          if b \<noteq> CHR '';'' then Inl ''invalid character entity (no semicolon)''
          else if takeWhile (isDigit base) s = [] \<or>
                  parseUint base (takeWhile (isDigit base) s) > 0x10FFFF then
            Inl ''invalid character entity''
          else Inr (encodeRune (parseUint base (takeWhile (isDigit base) s)), rest))"

definition entity :: "(string \<times> string) list \<Rightarrow> string \<Rightarrow> string + (string \<times> string)" where
  "entity Entity s =
     (case s of
        [] \<Rightarrow> Inl ''unexpected EOF''
      | b # s1 \<Rightarrow>
          if b = CHR ''#'' then
            (case s1 of
               [] \<Rightarrow> Inl ''unexpected EOF''
             | b1 # s2 \<Rightarrow> if b1 = CHR ''x'' then numericEntity 16 s2 else numericEntity 10 s1)
          else
            (case readName s of
               Inl e \<Rightarrow> Inl ''invalid character entity''
             | Inr (nm, rest) \<Rightarrow>
                 if hd rest \<noteq> CHR '';'' then Inl ''invalid character entity (no semicolon)''
                 else if list_ex (\<lambda>c. 0x80 \<le> (of_char c :: nat)) nm then
                   Inl ''unmodelled: name outside ASCII''
                 else if \<not> isNameStart (hd nm) then Inl ''invalid character entity''
                 else
                   (case map_of entityTable nm of
                      Some text \<Rightarrow> Inr (text, tl rest)
                    | None \<Rightarrow>
                       (case map_of Entity nm of
                          Some text \<Rightarrow> Inr (text, tl rest)
                        | None \<Rightarrow> Inl ''invalid character entity''))))"

lemma numericEntity_length: "numericEntity base s = Inr (t, rest) \<Longrightarrow> length rest < length s"
proof -
  assume a: "numericEntity base s = Inr (t, rest)"
  then obtain b where "dropWhile (isDigit base) s = b # rest"
    by (auto simp: numericEntity_def split: list.splits if_splits)
  then have "length (b # rest) \<le> length s"
    using length_dropWhile_le [of "isDigit base" s] by simp
  then show ?thesis by simp
qed

lemma entity_length: "entity Entity s = Inr (t, rest) \<Longrightarrow> length rest < length s"
  by (cases s)
     (auto simp: entity_def split: list.splits if_splits sum.splits option.splits
       dest!: numericEntity_length readName_length)

text \<open>\<open>Decoder.text(quote, cdata)\<close>: character data up to the next \<open><\<close> (which is left
  in the input), an attribute value up to its closing quote, or a CDATA section up to
  \<open>]]>\<close>. \<open>b0\<close> and \<open>b1\<close> are the two bytes read before the current one and \<open>buf\<close> is the
  data collected so far. \<open>quote\<close> is \<open>None\<close> where the library passes -1.\<close>

function text_loop ::
    "(string \<times> string) list \<Rightarrow> char option \<Rightarrow> bool \<Rightarrow> char \<Rightarrow> char \<Rightarrow> string \<Rightarrow> string \<Rightarrow>
     string + (string \<times> string)" where
  "text_loop Entity quote cdata b0 b1 buf [] =
     (if cdata then Inl ''unexpected EOF in CDATA section''
      else if quote \<noteq> None then Inl ''unexpected EOF''
      else Inr (buf, []))"
| "text_loop Entity quote cdata b0 b1 buf (b # s) =
     (if b0 = CHR '']'' \<and> b1 = CHR '']'' \<and> b = CHR ''>'' then
        (if cdata then Inr (take (length buf - 2) buf, s)
         else Inl ''unescaped ]]> not in CDATA section'')
      else if b = CHR ''<'' \<and> \<not> cdata then
        (if quote \<noteq> None then Inl ''unescaped < inside quoted string''
         else Inr (buf, b # s))
      else if quote = Some b then Inr (buf, s)
      else if b = CHR ''&'' \<and> \<not> cdata then
        (case entity Entity s of
           Inl e \<Rightarrow> Inl e
         | Inr (text, s') \<Rightarrow> text_loop Entity quote cdata (CHR 0x00) (CHR 0x00) (buf @ text) s')
      else
        text_loop Entity quote cdata b1 b
          (if b = CHR 0x0D then buf @ [CHR 0x0A]
           else if b1 = CHR 0x0D \<and> b = CHR 0x0A then buf
           else buf @ [b]) s)"
  by pat_completeness auto
termination
  by (relation "measure (\<lambda>(E, q, c, b0, b1, buf, s). length s)") (auto dest: entity_length)

definition decoder_text :: "(string \<times> string) list \<Rightarrow> char option \<Rightarrow> bool \<Rightarrow> string \<Rightarrow> string + (string \<times> string)" where
  "decoder_text Entity quote cdata s =
     (case text_loop Entity quote cdata (CHR 0x00) (CHR 0x00) [] s of
        Inl e \<Rightarrow> Inl e
      | Inr (data, rest) \<Rightarrow>
         (case checkRunes data of
            Some e \<Rightarrow> Inl e
          | None \<Rightarrow> Inr (data, rest)))"

lemma text_loop_length:
  "text_loop E q c b0 b1 buf s = Inr (data, rest) \<Longrightarrow> length rest \<le> length s"
proof (induction "length s" arbitrary: b0 b1 buf s rule: less_induct)
  case less
  show ?case
  proof (cases s)
    case Nil
    with less.prems show ?thesis by (simp split: if_splits)
  next
    case (Cons b s0)
    have IH: "length rest \<le> length s"
      if "length s1 \<le> length s0" "text_loop E q c x y z s1 = Inr (data, rest)" for x y z s1
    proof -
      from that Cons have "length s1 < length s" by simp
      from less.hyps [OF this that(2)] that(1) Cons show ?thesis by simp
    qed
    have ent: "length s1 \<le> length s0" if "entity E s0 = Inr (t, s1)" for t s1
      using entity_length [OF that] by simp
    from less.prems Cons show ?thesis
      by (auto split: if_splits sum.splits prod.splits dest: IH [OF ent] IH [OF order_refl])
  qed
qed

lemma text_loop_length_first:
  "text_loop E None False b0 b1 buf (b # s) = Inr (data, rest) \<Longrightarrow> b \<noteq> CHR ''<'' \<Longrightarrow>
   length rest \<le> length s"
  by (auto split: if_splits sum.splits prod.splits
      dest!: text_loop_length entity_length)

lemma text_length: "decoder_text E q c s = Inr (data, rest) \<Longrightarrow> length rest \<le> length s"
  by (auto simp: decoder_text_def split: sum.splits prod.splits option.splits dest: text_loop_length)

lemma text_length_first:
  "decoder_text E None False (b # s) = Inr (data, rest) \<Longrightarrow> b \<noteq> CHR ''<'' \<Longrightarrow> length rest \<le> length s"
  unfolding decoder_text_def
  by (auto simp del: text_loop.simps split: sum.splits prod.splits option.splits
      dest: text_loop_length_first)

definition isSpaceByte :: "char \<Rightarrow> bool" where
  "isSpaceByte b \<longleftrightarrow> b = CHR '' '' \<or> b = CHR 0x0D \<or> b = CHR 0x0A \<or> b = CHR 0x09"

definition space :: "string \<Rightarrow> string" where
  "space s = dropWhile isSpaceByte s"

lemma space_length: "length (space s) \<le> length s"
  by (simp add: space_def length_dropWhile_le)

definition attrval :: "(string \<times> string) list \<Rightarrow> string \<Rightarrow> string + (string \<times> string)" where
  "attrval Entity s =
     (case s of
        [] \<Rightarrow> Inl ''unexpected EOF''
      | b # s1 \<Rightarrow>
          if b = CHR 0x22 \<or> b = CHR 0x27 then decoder_text Entity (Some b) False s1
          else Inl ''unquoted or missing attribute value in element'')"

lemma attrval_length: "attrval E s = Inr (v, rest) \<Longrightarrow> length rest < length s"
  by (cases s) (auto simp: attrval_def split: if_splits dest!: text_length)

text \<open>The loop of \<open>rawToken\<close> that reads the attributes of a start tag up to \<open>></\<close> or
  \<open>/></\<close>; the flag tells which of the two ended the tag.\<close>

function attrs_loop ::
    "(string \<times> string) list \<Rightarrow> Attr list \<Rightarrow> string \<Rightarrow> string + ((Attr list \<times> bool) \<times> string)" where
  "attrs_loop Entity attr s =
     (case space s of
        [] \<Rightarrow> Inl ''unexpected EOF''
      | b # s1 \<Rightarrow>
          if b = CHR ''/'' then
            (case s1 of
               [] \<Rightarrow> Inl ''unexpected EOF''
             | b1 # s2 \<Rightarrow>
                 if b1 \<noteq> CHR ''>'' then Inl ''expected /> in element''
                 else Inr ((attr, True), s2))
          else if b = CHR ''>'' then Inr ((attr, False), s1)
          else
            (case nsname (b # s1) of
               Inl e \<Rightarrow> Inl e
             | Inr (aname, s2) \<Rightarrow>
                (case space s2 of
                   [] \<Rightarrow> Inl ''unexpected EOF''
                 | b2 # s3 \<Rightarrow>
                     if b2 \<noteq> CHR ''='' then Inl ''attribute name without = in element''
                     else
                       (case attrval Entity (space s3) of
                          Inl e \<Rightarrow> Inl e
                        | Inr (val, s4) \<Rightarrow> attrs_loop Entity (attr @ [Attr aname val]) s4))))"
  by pat_completeness auto
termination
proof (relation "measure (\<lambda>(E, a, s). length s)", simp, clarsimp)
  fix s :: string and b s1 aname s2 b2 s3 val s4 E
  assume a: "space s = b # s1" "nsname (b # s1) = Inr (aname, s2)"
    "space s2 = CHR ''='' # s3" "attrval E (space s3) = Inr (val, s4)"
  have "length s4 < length (space s3)" using a(4) by (rule attrval_length)
  also have "\<dots> \<le> length s3" by (rule space_length)
  also have "\<dots> < length (space s2)" using a(3) by simp
  also have "\<dots> \<le> length s2" by (rule space_length)
  also have "\<dots> < length (b # s1)" using a(2) by (rule nsname_length)
  also have "\<dots> = length (space s)" using a(1) by simp
  also have "\<dots> \<le> length s" by (rule space_length)
  finally show "length s4 < length s" .
qed

declare attrs_loop.simps [simp del]

lemma attrs_loop_length:
  "attrs_loop E a s = Inr (x, rest) \<Longrightarrow> length rest < length s"
proof (induction E a s rule: attrs_loop.induct)
  case (1 Entity attr s)
  show ?case
  proof (cases "space s")
    case Nil
    with "1.prems" show ?thesis by (simp add: attrs_loop.simps)
  next
    case (Cons b s1)
    have le: "length (b # s1) \<le> length s"
      using space_length [of s] Cons by simp
    show ?thesis
    proof (cases "b = CHR ''/'' \<or> b = CHR ''>''")
      case True
      with "1.prems" Cons le show ?thesis
        by (auto simp: attrs_loop.simps split: list.splits if_splits)
    next
      case False
      with "1.prems" Cons obtain aname s2 s3 val s4 where
        a: "nsname (b # s1) = Inr (aname, s2)" "space s2 = CHR ''='' # s3"
           "attrval Entity (space s3) = Inr (val, s4)"
           "attrs_loop Entity (attr @ [Attr aname val]) s4 = Inr (x, rest)"
        by (auto simp: attrs_loop.simps [of Entity attr s]
            split: list.splits if_splits sum.splits prod.splits)
      have "length rest < length s4"
        using "1.IH" [OF Cons _ _ a(1) refl a(2) _ a(3) refl a(4)] False by auto
      also have "\<dots> < length (space s3)" using a(3) by (rule attrval_length)
      also have "\<dots> \<le> length s3" by (rule space_length)
      also have "\<dots> < length (space s2)" using a(2) by simp
      also have "\<dots> \<le> length s2" by (rule space_length)
      also have "\<dots> < length (b # s1)" using a(1) by (rule nsname_length)
      also have "\<dots> \<le> length s" by (rule le)
      finally show ?thesis .
    qed
  qed
qed

text \<open>The body of a comment, after \<open><!--\<close> and up to \<open>--></\<close>.\<close>

fun comment_loop :: "char \<Rightarrow> char \<Rightarrow> string \<Rightarrow> string \<Rightarrow> string + (string \<times> string)" where
  "comment_loop b0 b1 buf [] = Inl ''unexpected EOF''"
| "comment_loop b0 b1 buf (b # s) =
     (if b0 = CHR ''-'' \<and> b1 = CHR ''-'' then
        (if b \<noteq> CHR ''>'' then Inl ''invalid sequence -- not allowed in comments''
         else Inr (take (length buf - 2) buf, s))
      else comment_loop b1 b (buf @ [b]) s)"

lemma comment_loop_length:
  "comment_loop b0 b1 buf s = Inr (data, rest) \<Longrightarrow> length rest < length s"
  by (induction b0 b1 buf s rule: comment_loop.induct) (auto split: if_splits)

text \<open>
  The tokens that successive calls of \<open>Decoder.Token\<close> return on an input, up to \<open>io.EOF\<close>
  or to the first error. \<open>stk\<close> is the stack of the elements that are open; an end tag must
  close the element on top of it, and the input must not end while an element is open. An
  empty-element tag gives its start element and then its end element.
\<close>

function tokens :: "(string \<times> string) list \<Rightarrow> Name list \<Rightarrow> string \<Rightarrow> event list" where
  "tokens Entity stk [] = (if stk \<noteq> [] then [SyntaxError ''unexpected EOF''] else [])"
| "tokens Entity stk (b # s) =
     (if b \<noteq> CHR ''<'' then
        (case decoder_text Entity None False (b # s) of
           Inl e \<Rightarrow> [SyntaxError e]
         | Inr (data, rest) \<Rightarrow> Tok (CharData data) # tokens Entity stk rest)
      else
        (case s of
           [] \<Rightarrow> [SyntaxError ''unexpected EOF'']
         | b1 # s1 \<Rightarrow>
             if b1 = CHR ''/'' then
               (case nsname s1 of
                  Inl e \<Rightarrow> [SyntaxError e]
                | Inr (nm, s2) \<Rightarrow>
                   (case space s2 of
                      [] \<Rightarrow> [SyntaxError ''unexpected EOF'']
                    | b2 # s3 \<Rightarrow>
                        if b2 \<noteq> CHR ''>'' then [SyntaxError ''invalid characters between </ and >'']
                        else
                          (case stk of
                             [] \<Rightarrow> [SyntaxError ''unexpected end element'']
                           | open # stk' \<Rightarrow>
                               if Local open \<noteq> Local nm \<or> Space open \<noteq> Space nm then
                                 [SyntaxError ''element closed by another end element'']
                               else Tok (EndElement nm) # tokens Entity stk' s3)))
             else if b1 = CHR ''?'' then [SyntaxError ''unmodelled: processing instruction'']
             else if b1 = CHR ''!'' then
               (case s1 of
                  [] \<Rightarrow> [SyntaxError ''unexpected EOF'']
                | b2 # s2 \<Rightarrow>
                    if b2 = CHR ''-'' then
                      (case s2 of
                         [] \<Rightarrow> [SyntaxError ''unexpected EOF'']
                       | b3 # s3 \<Rightarrow>
                           if b3 \<noteq> CHR ''-'' then [SyntaxError ''invalid sequence <!- not part of <!--'']
                           else
                             (case comment_loop (CHR 0x00) (CHR 0x00) [] s3 of
                                Inl e \<Rightarrow> [SyntaxError e]
                              | Inr (data, rest) \<Rightarrow> Tok (Comment data) # tokens Entity stk rest))
                    else if b2 = CHR ''['' then
                      (if take 6 s2 \<noteq> ''CDATA['' then [SyntaxError ''invalid <![ sequence'']
                       else
                         (case decoder_text Entity None True (drop 6 s2) of
                            Inl e \<Rightarrow> [SyntaxError e]
                          | Inr (data, rest) \<Rightarrow> Tok (CharData data) # tokens Entity stk rest))
                    else [SyntaxError ''unmodelled: directive''])
             else
               (case nsname (b1 # s1) of
                  Inl e \<Rightarrow> [SyntaxError e]
                | Inr (nm, s2) \<Rightarrow>
                   (case attrs_loop Entity [] s2 of
                      Inl e \<Rightarrow> [SyntaxError e]
                    | Inr ((attr, selfClosing), rest) \<Rightarrow>
                        Tok (StartElement nm attr) #
                        (if selfClosing then Tok (EndElement nm) # tokens Entity stk rest
                         else tokens Entity (nm # stk) rest)))))"
  by pat_completeness auto
termination
proof (relation "measure (\<lambda>(E, stk, s). length s)", goal_cases)
  case 1
  show ?case by simp
next
  case (2 Entity stk b s x data rest)
  then show ?case by (auto dest: text_length_first)
next
  case (3 Entity stk b s b1 s1 x nm s2 b2 s3 opn stk')
  have "length s3 < length (space s2)" using 3 by simp
  also have "\<dots> \<le> length s2" by (rule space_length)
  also have "\<dots> < length s1" using 3 by (auto dest: nsname_length)
  finally show ?case using 3 by simp
next
  case (4 Entity stk b s b1 s1 b2 s2 b3 s3 x data rest)
  then show ?case by (auto dest: comment_loop_length)
next
  case (5 Entity stk b s b1 s1 b2 s2 x data rest)
  then have "length rest \<le> length (drop 6 s2)" by (auto dest: text_length)
  with 5 show ?case by auto
next
  case (6 Entity stk b s b1 s1 x nm s2 y z attr selfClosing)
  then show ?case by (auto dest!: nsname_length attrs_loop_length)
next
  case (7 Entity stk b s b1 s1 x nm s2 y z attr selfClosing)
  then show ?case by (auto dest!: nsname_length attrs_loop_length)
qed

text \<open>\<open>xml.NewDecoder(strings.NewReader(wrapped))\<close> with \<open>decoder.Entity = htmlEntities\<close>.\<close>

definition NewDecoder :: "(string \<times> string) list \<Rightarrow> string \<Rightarrow> decoder" where
  "NewDecoder htmlEntities s = tokens htmlEntities [] s"

definition wrapped :: "string \<Rightarrow> string" where
  "wrapped xhtml =
     ''<root xmlns:ac='' @ [CHR 0x22] @ ''http://atlassian.com/confluence'' @ [CHR 0x22] @
     '' xmlns:ri='' @ [CHR 0x22] @ ''http://atlassian.com/confluence'' @ [CHR 0x22] @ ''>'' @
     xhtml @ ''</root>''"

section \<open>The entry points\<close>

definition Parse :: "(string \<times> string) list \<Rightarrow> string \<Rightarrow> error + Page" where
  "Parse htmlEntities xhtml =
     (if xhtml = [] then Inr (Page [])
      else Parse_loop [] (NewDecoder htmlEntities (wrapped xhtml)))"

definition ValidateWithOptions ::
    "(string \<times> string) list \<Rightarrow> string \<Rightarrow> ValidatorOptions \<Rightarrow> error + unit" where
  "ValidateWithOptions htmlEntities xhtml opts =
     (if xhtml = [] then Inr ()
      else Validate_loop opts 0 False (NewDecoder htmlEntities (wrapped xhtml)))"

definition Validate :: "(string \<times> string) list \<Rightarrow> string \<Rightarrow> error + unit" where
  "Validate htmlEntities xhtml = ValidateWithOptions htmlEntities xhtml DefaultValidatorOptions"

definition ValidateBlock ::
    "(string \<times> string) list \<Rightarrow> ((string \<times> string) list \<Rightarrow> (string \<times> string) list) \<Rightarrow> Block \<Rightarrow>
     error + unit" where
  "ValidateBlock htmlEntities iter block =
     (case RenderBlock iter block of
        Inl e \<Rightarrow> Inl e
      | Inr xhtml \<Rightarrow> Validate htmlEntities xhtml)"

section \<open>Evaluating the decoder on a given input\<close>

lemmas decoder_defs =
  nsname_def name_def readName_def nameByte_def isNameByte_def
  isNameStart_def attrs_loop.simps space_def isSpaceByte_def decoder_text_def attrval_def
  entity_def numericEntity_def entityTable_def isDigit_def digitVal_def parseUint_def
  encodeRune_def isInCharacterRange_def char_of_eq_iff

lemmas validator_defs =
  Validate_def ValidateWithOptions_def DefaultValidatorOptions_def ForbiddenTagsDefault_def
  index_def

lemma checkRunes_Nil [simp]: "checkRunes [] = None"
  by (simp add: checkRunes.simps)

lemma checkRunes_ascii [simp]:
  "(of_char c :: nat) < 0x80 \<Longrightarrow>
   checkRunes (c # cs) =
     (if isInCharacterRange (of_char c) then checkRunes cs else Some ''illegal character code'')"
  by (subst checkRunes.simps) (auto simp: Let_def RuneError_def)

section \<open>The renderer rejects a heading level outside 1..6\<close>

lemma intToDec_digit:
  "1 \<le> level \<Longrightarrow> level \<le> 6 \<Longrightarrow> intToDec level = [''123456'' ! nat (level - 1)]"
proof -
  assume "1 \<le> level" "level \<le> 6"
  then have "level = 1 \<or> level = 2 \<or> level = 3 \<or> level = 4 \<or> level = 5 \<or> level = 6"
    by arith
  then show ?thesis
    by (elim disjE) (simp_all add: intToDec_def natToDec.simps)
qed

text \<open>
  C8. \<open>RenderBlock\<close> on a Heading returns an error if and only if the level is below 1 or
  above 6, and the error is the invalid-level error for that very level (the level is not
  clamped or replaced by a default). For a level from 1 to 6 it succeeds with
  \<open><hN>\<close>, the escaped text and \<open></hN>\<close>, where \<open>N\<close> is the digit of the level.
\<close>

theorem RenderBlock_Heading_bounds:
  "((\<exists>e. RenderBlock iter (Heading level text) = Inl e) \<longleftrightarrow> level < 1 \<or> 6 < level) \<and>
   (level < 1 \<or> 6 < level \<longrightarrow>
      RenderBlock iter (Heading level text) = Inl (InvalidHeadingLevel level)) \<and>
   (1 \<le> level \<and> level \<le> 6 \<longrightarrow>
      RenderBlock iter (Heading level text) =
        Inr (''<h'' @ [''123456'' ! nat (level - 1)] @ ''>'' @ EscapeString text @
             ''</h'' @ [''123456'' ! nat (level - 1)] @ ''>''))"
  by (auto simp: renderHeading_def intToDec_digit)

theorem RenderBlock_Heading_bounds_witness:
  "RenderBlock (\<lambda>ps. ps) (Heading 0 ''T'') = Inl (InvalidHeadingLevel 0) \<and>
   RenderBlock (\<lambda>ps. ps) (Heading 7 ''T'') = Inl (InvalidHeadingLevel 7) \<and>
   RenderBlock (\<lambda>ps. ps) (Heading 2 ''a<b'') = Inr ''<h2>a&lt;b</h2>''"
  using RenderBlock_Heading_bounds [of "\<lambda>ps. ps" 0 "''T''"]
    RenderBlock_Heading_bounds [of "\<lambda>ps. ps" 7 "''T''"]
    RenderBlock_Heading_bounds [of "\<lambda>ps. ps" 2 "''a<b''"]
  by (simp add: EscapeString_def escapeChar_def)

section \<open>The wrapper element\<close>

definition rootAttr :: "Attr list" where
  "rootAttr =
     [Attr (XName ''xmlns'' ''ac'') ''http://atlassian.com/confluence'',
      Attr (XName ''xmlns'' ''ri'') ''http://atlassian.com/confluence'']"

lemma NewDecoder_wrapped:
  "NewDecoder E (wrapped x) =
     Tok (StartElement (XName [] ''root'') rootAttr) #
     tokens E [XName [] ''root''] (x @ ''</root>'')"
  by (simp add: NewDecoder_def wrapped_def rootAttr_def decoder_defs)

section \<open>The validator's table rules\<close>

text \<open>
  C10. \<open>Validate\<close> accepts a \<open>tr\<close> element that is not inside any open table, also with
  \<open>RequireTableTbody\<close> set: the top-level input \<open><tr><td>x</td></tr>\<close> passes, and in general,
  while \<open>tableDepth\<close> is not positive, a \<open>tr\<close> start tag that is not a forbidden tag is
  passed over with the two variables unchanged, and a \<open>tbody\<close> start tag does not set
  \<open>tbodyFound\<close>.
\<close>

theorem Validate_stray_tr:
  "Validate htmlEntities ''<tr><td>x</td></tr>'' = Inr () \<and>
   (tableDepth \<le> 0 \<and> \<not> index (ForbiddenTags opts) ''tr'' \<longrightarrow>
      Validate_loop opts tableDepth tbodyFound (Tok (StartElement (XName sp ''tr'') attrs) # d) =
      Validate_loop opts tableDepth tbodyFound d) \<and>
   (tableDepth \<le> 0 \<and> \<not> index (ForbiddenTags opts) ''tbody'' \<longrightarrow>
      Validate_loop opts tableDepth tbodyFound (Tok (StartElement (XName sp ''tbody'') attrs) # d) =
      Validate_loop opts tableDepth tbodyFound d)"
  by (simp add: validator_defs NewDecoder_wrapped decoder_defs)

theorem Validate_stray_tr_witness:
  "Validate_loop DefaultValidatorOptions 0 False
     [Tok (StartElement (XName [] ''tr'') []), Tok (EndElement (XName [] ''tr''))] = Inr () \<and>
   Validate_loop DefaultValidatorOptions 0 False
     [Tok (StartElement (XName [] ''tbody'') []), Tok (StartElement (XName [] ''table'') []),
      Tok (EndElement (XName [] ''table''))] =
     Inl (ValidationError ''<table> must contain <tbody>'' ''table'')"
  using Validate_stray_tr [of "[]" 0 DefaultValidatorOptions False "[]" "[]"
      "[Tok (EndElement (XName [] ''tr''))]"]
    Validate_stray_tr [of "[]" 0 DefaultValidatorOptions False "[]" "[]"
      "[Tok (StartElement (XName [] ''table'') []), Tok (EndElement (XName [] ''table''))]"]
  by (simp add: validator_defs)

text \<open>
  C4. The validator has one variable \<open>tbodyFound\<close> for all tables, not one per open table.
  On \<open><table><table><tbody></tbody></table></table>\<close> the \<open>tbody\<close> of the inner table sets
  it, the inner table closes, and the outer table, which has no \<open>tbody\<close> of its own, closes
  with the variable still set: the input is accepted with \<open>RequireTableTbody\<close>. The same
  holds when rows follow the inner table directly in the outer one.
\<close>

theorem Validate_nested_table_shares_flag:
  "ValidateWithOptions htmlEntities ''<table><table><tbody></tbody></table></table>''
     DefaultValidatorOptions = Inr () \<and>
   ValidateWithOptions htmlEntities
     ''<table><table><tbody></tbody></table><tr><td>x</td></tr></table>''
     DefaultValidatorOptions = Inr () \<and>
   RequireTableTbody DefaultValidatorOptions"
  by (simp add: validator_defs NewDecoder_wrapped decoder_defs)

section \<open>The macro allowlist\<close>




section \<open>Balanced token streams\<close>

text \<open>
  In strict mode the decoder checks that every end tag closes the element that is open, so
  the tokens it delivers without an error are those of a sequence of trees: an element with
  its name, its attributes and its children, character data, or one of the other three kinds
  of token. \<open>flatten\<close> lists the tokens of a tree and \<open>stream\<close> is the decoder that delivers the
  tokens of a sequence of trees and then \<open>io.EOF\<close>. The lemmas of this section compute what
  each function of the parser returns on the tokens of an element's children followed by its
  end tag.
\<close>

datatype node =
    Element Name "Attr list" "node list"
  | Chars string
  | CommentNode string
  | ProcInstNode string string
  | DirectiveNode string

fun flatten :: "node \<Rightarrow> Token list" where
  "flatten (Element n attrs kids) = StartElement n attrs # concat (map flatten kids) @ [EndElement n]"
| "flatten (Chars s) = [CharData s]"
| "flatten (CommentNode s) = [Comment s]"
| "flatten (ProcInstNode t s) = [ProcInst t s]"
| "flatten (DirectiveNode s) = [Directive s]"

definition stream :: "node list \<Rightarrow> decoder" where
  "stream ns = map Tok (concat (map flatten ns))"

lemma stream_simps [simp]:
  "stream [] = []"
  "stream (k # ks) = map Tok (flatten k) @ stream ks"
  "stream (ks @ ks') = stream ks @ stream ks'"
  by (simp_all add: stream_def)

lemma skip_node:
  "0 < depth \<Longrightarrow> skipElement_loop depth (map Tok (flatten k) @ d) = skipElement_loop depth d"
proof (induction k arbitrary: depth d)
  case (Element n attrs kids)
  have kids: "0 < dp \<Longrightarrow> skipElement_loop dp (stream ks @ d') = skipElement_loop dp d'"
    if "set ks \<subseteq> set kids" for ks dp d'
    using that by (induction ks arbitrary: d') (auto simp: Element.IH)
  from Element.prems show ?case
    using kids [of kids "depth + 1" "Tok (EndElement n) # d"]
    by (simp add: stream_def)
qed simp_all


lemma skip_stream:
  "0 < depth \<Longrightarrow> skipElement_loop depth (stream ks @ d) = skipElement_loop depth d"
  by (induction ks arbitrary: d) (auto simp: skip_node)

lemma skipElement_element:
  "skipElement (stream kids @ Tok (EndElement n) # d) = Inr d"
  by (cases d) (simp_all add: skipElement_def skip_stream)

fun allText :: "node \<Rightarrow> string" where
  "allText (Element n attrs kids) = concat (map allText kids)"
| "allText (Chars s) = s"
| "allText _ = []"

lemma extract_node:
  "0 < depth \<Longrightarrow>
   extractNestedText_loop content depth (map Tok (flatten k) @ d) =
   extractNestedText_loop (content @ allText k) depth d"
proof (induction k arbitrary: depth d content)
  case (Element n attrs kids)
  have kids: "0 < dp \<Longrightarrow> extractNestedText_loop c dp (stream ks @ d') =
      extractNestedText_loop (c @ concat (map allText ks)) dp d'"
    if "set ks \<subseteq> set kids" for ks dp d' c
    using that by (induction ks arbitrary: d' c) (auto simp: Element.IH)
  from Element.prems show ?case
    using kids [of kids "depth + 1" content "Tok (EndElement n) # d"]
    by (simp add: stream_def)
qed simp_all

lemma extract_stream:
  "0 < depth \<Longrightarrow>
   extractNestedText_loop content depth (stream ks @ d) =
   extractNestedText_loop (content @ concat (map allText ks)) depth d"
  by (induction ks arbitrary: d content) (auto simp: extract_node)

lemma extractNestedText_element:
  "extractNestedText (stream kids @ Tok (EndElement n) # d) =
   Inr (TrimSpace (concat (map allText kids)), d)"
  by (cases d) (simp_all add: extractNestedText_def extract_stream)

fun ownText :: "node \<Rightarrow> string" where
  "ownText (Chars s) = s"
| "ownText _ = []"

lemma parseTextContent_node:
  "parseTextContent_loop endTag content (map Tok (flatten k) @ d) =
   parseTextContent_loop endTag (content @ ownText k) d"
  by (cases k) (simp_all add: skipElement_element [unfolded stream_def])

lemma parseTextContent_stream:
  "parseTextContent_loop endTag content (stream ks @ d) =
   parseTextContent_loop endTag (content @ concat (map ownText ks)) d"
  by (induction ks arbitrary: content) (simp_all add: parseTextContent_node)

lemma parseTextContent_element:
  "Local n = endTag \<Longrightarrow>
   parseTextContent (stream kids @ Tok (EndElement n) # d) endTag =
   Inr (TrimSpace (concat (map ownText kids)), d)"
  by (simp add: parseTextContent_def parseTextContent_stream)

fun macroChild :: "Macro \<Rightarrow> node \<Rightarrow> Macro" where
  "macroChild macro (Element n attrs kids) =
     (if Local n = ''parameter'' then
        (if nameAttr [] attrs \<noteq> [] then
           macro\<lparr>Params := AList.update (nameAttr [] attrs) (TrimSpace (concat (map ownText kids)))
                      (Params macro)\<rparr>
         else macro)
      else if Local n = ''rich-text-body'' \<or> Local n = ''plain-text-body'' then
        macro\<lparr>Body := TrimSpace (concat (map ownText kids))\<rparr>
      else macro)"
| "macroChild macro _ = macro"

lemma parseMacro_node:
  "parseMacro_loop macro (map Tok (flatten k) @ d) = parseMacro_loop (macroChild macro k) d"
  by (cases k)
     (simp_all add: skipElement_element [unfolded stream_def]
        parseTextContent_element [unfolded stream_def])

lemma parseMacro_stream:
  "parseMacro_loop macro (stream ks @ d) = parseMacro_loop (foldl macroChild macro ks) d"
  by (induction ks arbitrary: macro) (simp_all add: parseMacro_node)

definition macroOf :: "Attr list \<Rightarrow> node list \<Rightarrow> Macro" where
  "macroOf attrs kids = foldl macroChild \<lparr>Name = nameAttr [] attrs, Params = [], Body = []\<rparr> kids"

lemma parseMacro_element:
  "Local n = ''structured-macro'' \<Longrightarrow>
   parseMacro (stream kids @ Tok (EndElement n) # d) attrs = Inr (macroOf attrs kids, d)"
  by (simp add: parseMacro_def parseMacro_stream macroOf_def)

fun cellChild :: "Cell \<times> string \<Rightarrow> node \<Rightarrow> Cell \<times> string" where
  "cellChild (cell, content) (Element n attrs kids) =
     (if Local n = ''structured-macro'' then (cell\<lparr>Macro := Some (macroOf attrs kids)\<rparr>, content)
      else
        (cell,
         content @
         (if content \<noteq> [] \<and> TrimSpace (concat (map allText kids)) \<noteq> [] then '' '' else []) @
         TrimSpace (concat (map allText kids))))"
| "cellChild (cell, content) (Chars s) = (cell, content @ s)"
| "cellChild (cell, content) _ = (cell, content)"

lemma parseTableCell_node:
  "parseTableCell_loop tg cell content (map Tok (flatten k) @ d) =
   parseTableCell_loop tg (fst (cellChild (cell, content) k)) (snd (cellChild (cell, content) k)) d"
  by (cases k)
     (simp_all add: extractNestedText_element [unfolded stream_def]
        parseMacro_element [unfolded stream_def])

lemma parseTableCell_stream:
  "parseTableCell_loop tg cell content (stream ks @ d) =
   parseTableCell_loop tg (fst (foldl cellChild (cell, content) ks))
     (snd (foldl cellChild (cell, content) ks)) d"
  by (induction ks arbitrary: cell content) (simp_all add: parseTableCell_node)

definition cellOf :: "node list \<Rightarrow> Cell" where
  "cellOf kids =
     (fst (foldl cellChild (\<lparr>Text = [], Macro = None\<rparr>, []) kids))
       \<lparr>Text := TrimSpace (snd (foldl cellChild (\<lparr>Text = [], Macro = None\<rparr>, []) kids))\<rparr>"

lemma parseTableCell_element:
  "Local n = tg \<Longrightarrow>
   parseTableCell (stream kids @ Tok (EndElement n) # d) tg = Inr (cellOf kids, d)"
  by (simp add: parseTableCell_def parseTableCell_stream cellOf_def)


fun rowChild :: "Row \<times> bool \<Rightarrow> node \<Rightarrow> Row \<times> bool" where
  "rowChild (row, isHeader) (Element n attrs kids) =
     (if Local n = ''th'' then (row\<lparr>Cells := Cells row @ [cellOf kids]\<rparr>, True)
      else if Local n = ''td'' then (row\<lparr>Cells := Cells row @ [cellOf kids]\<rparr>, isHeader)
      else (row, isHeader))"
| "rowChild (row, isHeader) _ = (row, isHeader)"

lemma parseTableRow_node:
  "parseTableRow_loop row isHeader (map Tok (flatten k) @ d) =
   parseTableRow_loop (fst (rowChild (row, isHeader) k)) (snd (rowChild (row, isHeader) k)) d"
  by (cases k)
     (simp_all add: skipElement_element [unfolded stream_def]
        parseTableCell_element [unfolded stream_def])

lemma parseTableRow_stream:
  "parseTableRow_loop row isHeader (stream ks @ d) =
   parseTableRow_loop (fst (foldl rowChild (row, isHeader) ks))
     (snd (foldl rowChild (row, isHeader) ks)) d"
  by (induction ks arbitrary: row isHeader) (simp_all add: parseTableRow_node)

definition rowOf :: "node list \<Rightarrow> Row \<times> bool" where
  "rowOf kids = foldl rowChild (\<lparr>Cells = []\<rparr>, False) kids"

lemma parseTableRow_element:
  "Local n = ''tr'' \<Longrightarrow>
   parseTableRow (stream kids @ Tok (EndElement n) # d) = Inr (rowOf kids, d)"
  by (simp add: parseTableRow_def parseTableRow_stream rowOf_def)

fun tbodyChild :: "string list \<times> Row list \<Rightarrow> node \<Rightarrow> string list \<times> Row list" where
  "tbodyChild table (Element n attrs kids) =
     (if Local n = ''tr'' then addRow table (rowOf kids) else table)"
| "tbodyChild table _ = table"

lemma parseTbody_node:
  "parseTbody table (map Tok (flatten k) @ d) = parseTbody (tbodyChild table k) d"
  by (cases k)
     (simp_all add: skipElement_element [unfolded stream_def]
        parseTableRow_element [unfolded stream_def])

lemma parseTbody_stream:
  "parseTbody table (stream ks @ d) = parseTbody (foldl tbodyChild table ks) d"
  by (induction ks arbitrary: table) (simp_all add: parseTbody_node)

lemma parseTbody_element:
  "Local n = ''tbody'' \<Longrightarrow>
   parseTbody table (stream kids @ Tok (EndElement n) # d) = Inr (foldl tbodyChild table kids, d)"
  by (simp add: parseTbody_stream)

fun tableChild :: "string list \<times> Row list \<Rightarrow> node \<Rightarrow> string list \<times> Row list" where
  "tableChild table (Element n attrs kids) =
     (if Local n = ''tbody'' then foldl tbodyChild table kids
      else if Local n = ''tr'' then addRow table (rowOf kids)
      else table)"
| "tableChild table _ = table"

lemma parseTable_node:
  "parseTable_loop table (map Tok (flatten k) @ d) = parseTable_loop (tableChild table k) d"
  by (cases k)
     (simp_all add: skipElement_element [unfolded stream_def]
        parseTableRow_element [unfolded stream_def] parseTbody_element [unfolded stream_def])

lemma parseTable_stream:
  "parseTable_loop table (stream ks @ d) = parseTable_loop (foldl tableChild table ks) d"
  by (induction ks arbitrary: table) (simp_all add: parseTable_node)

definition tableOf :: "node list \<Rightarrow> Block" where
  "tableOf kids =
     Table (fst (foldl tableChild ([], []) kids)) (snd (foldl tableChild ([], []) kids))"

lemma parseTable_element:
  "Local n = ''table'' \<Longrightarrow>
   parseTable (stream kids @ Tok (EndElement n) # d) = Inr (tableOf kids, d)"
  by (simp add: parseTable_def parseTable_stream tableOf_def)


















section \<open>Properties of strings.TrimSpace\<close>

text \<open>A string is trimmed when it neither starts nor ends with a white space rune.\<close>

definition trimmed :: "string \<Rightarrow> bool" where
  "trimmed s \<longleftrightarrow> leadingSpace s = 0 \<and> trailingSpace s = 0"

lemma leadingSpace_0_iff: "leadingSpace s = 0 \<longleftrightarrow> \<not> list_ex (\<lambda>w. prefix w s) spaceSeqs"
  by (auto simp: leadingSpace_def find_None_iff list_ex_iff find_Some_iff spaceSeqs_nonempty
      split: option.splits)

lemma trailingSpace_0_iff: "trailingSpace s = 0 \<longleftrightarrow> \<not> list_ex (\<lambda>w. suffix w s) spaceSeqs"
  by (auto simp: trailingSpace_def find_None_iff list_ex_iff find_Some_iff spaceSeqs_nonempty
      split: option.splits)






lemma TrimSpace_id: "trimmed s \<Longrightarrow> TrimSpace s = s"
  by (simp add: trimmed_def TrimSpace_def TrimLeft.simps TrimRight.simps)

lemma TrimSpace_Nil [simp]: "TrimSpace [] = []"
  by (simp add: TrimSpace_id trimmed_def leadingSpace_0_iff trailingSpace_0_iff spaceSeqs_def)

section \<open>A parse that succeeds has read the tokens of a sequence of trees\<close>

text \<open>A decoder that has a syntax error ahead.\<close>

definition has_error :: "decoder \<Rightarrow> bool" where
  "has_error d = list_ex (\<lambda>ev. case ev of SyntaxError e \<Rightarrow> True | Tok t \<Rightarrow> False) d"


lemma has_error_append: "has_error (d @ d') = (has_error d \<or> has_error d')"
  by (auto simp: has_error_def list_ex_iff)

lemma has_error_stream [simp]: "\<not> has_error (stream ks)"
  by (auto simp: has_error_def stream_def list_ex_iff)

































section \<open>The parser trims the text it extracts\<close>
















lemmas trim_defs =
  TrimSpace_def TrimLeft.simps TrimRight.simps leadingSpace_def trailingSpace_def spaceSeqs_def
  suffix_to_prefix

lemmas parser_defs =
  Parse_def parseElement_def asBlock_def parseParagraph_def parseHeading_def headingLevel_def
  parseBulletList_def parseNumberedList_def parseListItem_def parseTable_def parseTableRow_def
  parseTableCell_def parseMacro_def parseTextContent_def skipElement_def extractNestedText_def
  nameAttr_def addRow_def



section \<open>Header rows of a table\<close>

text \<open>
  C3, as the specification states it, fails: a second header row does not replace the
  headers of the first. Both loops that read rows append the cell texts of a header row to
  \<open>table.Headers\<close>, so with two header rows \<open>A\<close> and \<open>B\<close> the headers are \<open>A, B\<close> and not
  \<open>B\<close>.
\<close>

lemma Parse_two_header_rows_eval:
  "Parse [] ''<table><tbody><tr><th>A</th></tr><tr><th>B</th></tr></tbody></table>'' =
     Inr (Page [Table [''A'', ''B''] []])"
  by (simp add: parser_defs NewDecoder_wrapped decoder_defs trim_defs)

theorem Parse_two_header_rows:
  "Parse [] ''<table><tbody><tr><th>A</th></tr><tr><th>B</th></tr></tbody></table>'' =
     Inr (Page [Table [''A'', ''B''] []]) \<and>
   Parse [] ''<table><tbody><tr><th>A</th></tr><tr><th>B</th></tr></tbody></table>'' \<noteq>
     Inr (Page [Table [''B''] []])"
  by (simp add: Parse_two_header_rows_eval)

definition isElem :: "string \<Rightarrow> node \<Rightarrow> bool" where
  "isElem local k = (case k of Element n attrs kids \<Rightarrow> Local n = local | _ \<Rightarrow> False)"

definition kidsOf :: "node \<Rightarrow> node list" where
  "kidsOf k = (case k of Element n attrs kids \<Rightarrow> kids | _ \<Rightarrow> [])"

text \<open>The rows of a table in the order of the document: for each \<open>tr\<close> element that is a
  child of the table or of one of its \<open>tbody\<close> children, the list of its children.\<close>

definition tableRows :: "node list \<Rightarrow> node list list" where
  "tableRows kids =
     concat (map (\<lambda>k. if isElem ''tbody'' k then map kidsOf (filter (isElem ''tr'') (kidsOf k))
                       else if isElem ''tr'' k then [kidsOf k]
                       else []) kids)"

definition isHeaderRow :: "node list \<Rightarrow> bool" where
  "isHeaderRow r = list_ex (isElem ''th'') r"

definition rowCells :: "node list \<Rightarrow> Cell list" where
  "rowCells r = map (\<lambda>k. cellOf (kidsOf k)) (filter (\<lambda>k. isElem ''th'' k \<or> isElem ''td'' k) r)"

lemma foldl_rowChild:
  "foldl rowChild (row, h) r = (row\<lparr>Cells := Cells row @ rowCells r\<rparr>, h \<or> isHeaderRow r)"
proof (induction r arbitrary: row h)
  case Nil
  show ?case by (simp add: rowCells_def isHeaderRow_def)
next
  case (Cons k r)
  show ?case
    by (cases k) (auto simp: Cons.IH rowCells_def isHeaderRow_def isElem_def kidsOf_def)
qed

lemma rowOf_eq: "rowOf r = (\<lparr>Cells = rowCells r\<rparr>, isHeaderRow r)"
  by (simp add: rowOf_def foldl_rowChild)

lemma foldl_addRow:
  "foldl addRow table (map rowOf rs) =
     (fst table @ concat (map (\<lambda>r. map Text (rowCells r)) (filter isHeaderRow rs)),
      snd table @ map (\<lambda>r. \<lparr>Cells = rowCells r\<rparr>) (filter (\<lambda>r. \<not> isHeaderRow r) rs))"
  by (induction rs arbitrary: table) (auto simp: addRow_def rowOf_eq)

lemma foldl_addRow_append:
  "foldl addRow table (map rowOf (rs @ rs')) = foldl addRow (foldl addRow table (map rowOf rs)) (map rowOf rs')"
  by simp

lemma foldl_tbodyChild:
  "foldl tbodyChild table ks = foldl addRow table (map rowOf (map kidsOf (filter (isElem ''tr'') ks)))"
proof (induction ks arbitrary: table)
  case Nil
  show ?case by simp
next
  case (Cons k ks)
  show ?case by (cases k) (auto simp: Cons.IH isElem_def kidsOf_def)
qed

lemma foldl_tableChild:
  "foldl tableChild table kids = foldl addRow table (map rowOf (tableRows kids))"
proof (induction kids arbitrary: table)
  case Nil
  show ?case by (simp add: tableRows_def)
next
  case (Cons k kids)
  have step: "tableChild table k =
      foldl addRow table (map rowOf (if isElem ''tbody'' k then map kidsOf (filter (isElem ''tr'') (kidsOf k))
                       else if isElem ''tr'' k then [kidsOf k] else []))"
    by (cases k) (auto simp: isElem_def kidsOf_def foldl_tbodyChild)
  have rows: "tableRows (k # kids) =
      (if isElem ''tbody'' k then map kidsOf (filter (isElem ''tr'') (kidsOf k))
       else if isElem ''tr'' k then [kidsOf k] else []) @ tableRows kids"
    by (simp add: tableRows_def)
  show ?case
    unfolding rows by (simp only: foldl.simps Cons.IH step map_append foldl_append)
qed

text \<open>
  C3, amended. For every table, the headers that \<open>Parse\<close> returns are the cell texts of
  all the rows that have at least one \<open>th\<close> cell, row after row in the order of the
  document: a later header row appends to the headers of the earlier ones. Every row with
  no \<open>th\<close> cell is appended to the rows, in the order of the document.
\<close>

theorem parseTable_headers_append:
  "Local n = ''table'' \<Longrightarrow>
   parseTable (stream kids @ Tok (EndElement n) # d) =
     Inr (Table (concat (map (\<lambda>r. map Text (rowCells r)) (filter isHeaderRow (tableRows kids))))
                (map (\<lambda>r. \<lparr>Cells = rowCells r\<rparr>) (filter (\<lambda>r. \<not> isHeaderRow r) (tableRows kids))),
          d)"
  by (simp add: parseTable_element tableOf_def foldl_tableChild foldl_addRow)

theorem parseTable_headers_append_witness:
  "parseTable
     (stream
        [Element (XName [] ''tbody'') []
           [Element (XName [] ''tr'') [] [Element (XName [] ''th'') [] [Chars ''A'']],
            Element (XName [] ''tr'') [] [Element (XName [] ''td'') [] [Chars ''1'']],
            Element (XName [] ''tr'') [] [Element (XName [] ''th'') [] [Chars ''B'']]]] @
      Tok (EndElement (XName [] ''table'')) # []) =
   Inr (Table [''A'', ''B''] [\<lparr>Cells = [\<lparr>Text = ''1'', Macro = None\<rparr>]\<rparr>], [])"
  using parseTable_headers_append
    [of "XName [] ''table''"
      "[Element (XName [] ''tbody'') []
           [Element (XName [] ''tr'') [] [Element (XName [] ''th'') [] [Chars ''A'']],
            Element (XName [] ''tr'') [] [Element (XName [] ''td'') [] [Chars ''1'']],
            Element (XName [] ''tr'') [] [Element (XName [] ''th'') [] [Chars ''B'']]]]" "[]"]
  by (simp add: tableRows_def isElem_def kidsOf_def isHeaderRow_def rowCells_def cellOf_def
      trim_defs)

section \<open>The two fields of a cell\<close>

text \<open>
  C5, as the specification states it, fails: a cell that holds character data and a
  macro is parsed into a Cell with both fields set. \<open>parseTableCell\<close> stores the macro in
  \<open>cell.Macro\<close> and goes on collecting text, which it stores in \<open>cell.Text\<close> at the end tag.
\<close>

lemma Parse_cell_text_and_macro_eval:
  "Parse []
     (''<table><tbody><tr><td>x<ac:structured-macro ac:name='' @ [CHR 0x22] @ ''s'' @ [CHR 0x22] @
      ''></ac:structured-macro></td></tr></tbody></table>'') =
   Inr (Page [Table [] [\<lparr>Cells = [\<lparr>Text = ''x'',
                                       Macro = Some \<lparr>Name = ''s'', Params = [], Body = []\<rparr>\<rparr>]\<rparr>]])"
  by (simp add: parser_defs NewDecoder_wrapped decoder_defs trim_defs)

theorem Parse_cell_text_and_macro:
  "Parse []
     (''<table><tbody><tr><td>x<ac:structured-macro ac:name='' @ [CHR 0x22] @ ''s'' @ [CHR 0x22] @
      ''></ac:structured-macro></td></tr></tbody></table>'') =
   Inr (Page [Table [] [\<lparr>Cells = [\<lparr>Text = ''x'',
                                       Macro = Some \<lparr>Name = ''s'', Params = [], Body = []\<rparr>\<rparr>]\<rparr>]]) \<and>
   Macro \<lparr>Text = ''x'', Macro = Some \<lparr>Name = ''s'', Params = [], Body = []\<rparr>\<rparr> \<noteq> None \<and>
   Text \<lparr>Text = ''x'', Macro = Some \<lparr>Name = ''s'', Params = [], Body = []\<rparr>\<rparr> \<noteq> []"
  using Parse_cell_text_and_macro_eval by simp

text \<open>The two fields of a cell, as \<open>parseTableCell\<close> computes them from the children of
  the cell: the macro is that of the last \<open>structured-macro\<close> child; the text is collected
  from the character data and from the other child elements.\<close>

fun cellMacro :: "Macro option \<Rightarrow> node \<Rightarrow> Macro option" where
  "cellMacro macro (Element n attrs kids) =
     (if Local n = ''structured-macro'' then Some (macroOf attrs kids) else macro)"
| "cellMacro macro _ = macro"

fun cellText :: "string \<Rightarrow> node \<Rightarrow> string" where
  "cellText content (Element n attrs kids) =
     (if Local n = ''structured-macro'' then content
      else content @
           (if content \<noteq> [] \<and> TrimSpace (concat (map allText kids)) \<noteq> [] then '' '' else []) @
           TrimSpace (concat (map allText kids)))"
| "cellText content (Chars s) = content @ s"
| "cellText content _ = content"

lemma foldl_cellChild:
  "foldl cellChild (cell, content) kids =
     (cell\<lparr>Macro := foldl cellMacro (Macro cell) kids\<rparr>, foldl cellText content kids)"
proof (induction kids arbitrary: cell content)
  case Nil
  show ?case by simp
next
  case (Cons k kids)
  show ?case by (cases k) (simp_all add: Cons.IH)
qed

lemma cellOf_eq:
  "cellOf kids = \<lparr>Text = TrimSpace (foldl cellText [] kids), Macro = foldl cellMacro None kids\<rparr>"
  by (simp add: cellOf_def foldl_cellChild)

lemma foldl_cellMacro_None:
  "(foldl cellMacro macro kids = None) = (macro = None \<and> \<not> list_ex (isElem ''structured-macro'') kids)"
proof (induction kids arbitrary: macro)
  case Nil
  show ?case by simp
next
  case (Cons k kids)
  show ?case by (cases k) (auto simp: Cons.IH isElem_def)
qed

definition otherElement :: "node \<Rightarrow> bool" where
  "otherElement k = (case k of Element n attrs kids \<Rightarrow> Local n \<noteq> ''structured-macro'' | _ \<Rightarrow> False)"

lemma foldl_cellText_own:
  "\<not> list_ex otherElement kids \<Longrightarrow>
   foldl cellText content kids = content @ concat (map ownText kids)"
proof (induction kids arbitrary: content)
  case Nil
  show ?case by simp
next
  case (Cons k kids)
  then show ?case by (cases k) (auto simp: otherElement_def)
qed

text \<open>
  C5, amended. The parser sets the two fields of a cell independently of each other. For
  the children of a cell followed by its end tag, \<open>parseTableCell\<close> returns the cell whose
  Macro is the last \<open>structured-macro\<close> child (it is unset exactly when the cell has no such
  child) and whose Text is the trimmed text collected from the character data and the other
  child elements of the cell. Hence the Text of a cell with a macro is empty when the cell
  holds nothing else but white space: when no child is an element other than a macro, Text
  is the trimmed character data of the cell.
\<close>

theorem parseTableCell_fields:
  "Local n = tagName \<Longrightarrow>
   parseTableCell (stream kids @ Tok (EndElement n) # d) tagName =
     Inr (\<lparr>Text = TrimSpace (foldl cellText [] kids), Macro = foldl cellMacro None kids\<rparr>, d) \<and>
   ((foldl cellMacro None kids = None) = (\<not> list_ex (isElem ''structured-macro'') kids)) \<and>
   (\<not> list_ex otherElement kids \<longrightarrow> foldl cellText [] kids = concat (map ownText kids))"
  by (simp add: parseTableCell_element cellOf_eq foldl_cellMacro_None foldl_cellText_own)

theorem parseTableCell_fields_witness:
  "parseTableCell
     (stream [Chars '' '', Element (XName ''ac'' ''structured-macro'') [Attr (XName ''ac'' ''name'') ''s''] []] @
      Tok (EndElement (XName [] ''td'')) # []) ''td'' =
     Inr (\<lparr>Text = [], Macro = Some \<lparr>Name = ''s'', Params = [], Body = []\<rparr>\<rparr>, []) \<and>
   parseTableCell
     (stream [Chars ''x'', Element (XName ''ac'' ''structured-macro'') [Attr (XName ''ac'' ''name'') ''s''] []] @
      Tok (EndElement (XName [] ''td'')) # []) ''td'' =
     Inr (\<lparr>Text = ''x'', Macro = Some \<lparr>Name = ''s'', Params = [], Body = []\<rparr>\<rparr>, [])"
  using parseTableCell_fields
    [of "XName [] ''td''" "''td''"
      "[Chars '' '', Element (XName ''ac'' ''structured-macro'') [Attr (XName ''ac'' ''name'') ''s''] []]" "[]"]
    parseTableCell_fields
    [of "XName [] ''td''" "''td''"
      "[Chars ''x'', Element (XName ''ac'' ''structured-macro'') [Attr (XName ''ac'' ''name'') ''s''] []]" "[]"]
  by (simp add: macroOf_def nameAttr_def trim_defs otherElement_def)

section \<open>The body of a macro\<close>

text \<open>
  C6, as the specification states it, fails: the text inside an element nested in the
  body of a macro is not flattened into the body. \<open>parseTextContent\<close> skips a nested element
  with everything inside it, so the body of a macro whose \<open>rich-text-body\<close> is
  \<open><p>Hello</p>\<close> is empty, and that of \<open>a<b>c</b>d\<close> is \<open>ad\<close>.
\<close>

lemma Parse_macro_body_nested_eval:
  "Parse []
     (''<ac:structured-macro ac:name='' @ [CHR 0x22] @ ''info'' @ [CHR 0x22] @
      ''><ac:rich-text-body><p>Hello</p></ac:rich-text-body></ac:structured-macro>'') =
   Inr (Page [MacroBlock \<lparr>Name = ''info'', Params = [], Body = []\<rparr>])"
  by (simp add: parser_defs NewDecoder_wrapped decoder_defs trim_defs)

theorem Parse_macro_body_nested:
  "Parse []
     (''<ac:structured-macro ac:name='' @ [CHR 0x22] @ ''info'' @ [CHR 0x22] @
      ''><ac:rich-text-body><p>Hello</p></ac:rich-text-body></ac:structured-macro>'') =
   Inr (Page [MacroBlock \<lparr>Name = ''info'', Params = [], Body = []\<rparr>]) \<and>
   Body \<lparr>Name = ''info'', Params = [], Body = []\<rparr> \<noteq> ''Hello''"
  using Parse_macro_body_nested_eval by simp

definition isBody :: "node \<Rightarrow> bool" where
  "isBody k = (isElem ''rich-text-body'' k \<or> isElem ''plain-text-body'' k)"

lemma Body_macroChild: "\<not> isBody k \<Longrightarrow> Body (macroChild macro k) = Body macro"
  by (cases k) (auto simp: isBody_def isElem_def)

lemma Body_foldl_macroChild:
  "\<not> list_ex isBody ks \<Longrightarrow> Body (foldl macroChild macro ks) = Body macro"
  by (induction ks arbitrary: macro) (auto simp: Body_macroChild)

text \<open>
  C6, amended. For every structured-macro, the body of the parsed Macro is the trimmed
  concatenation of the character data that stands directly inside its last
  \<open>rich-text-body\<close> or \<open>plain-text-body\<close> child (CDATA sections are character data); an
  element nested in that child is skipped with all the text inside it. The children before
  and after the body child are arbitrary, as long as no further body child follows.
\<close>

theorem parseMacro_body:
  "Local n = ''structured-macro'' \<Longrightarrow>
   Local b = ''rich-text-body'' \<or> Local b = ''plain-text-body'' \<Longrightarrow>
   \<not> list_ex isBody after \<Longrightarrow>
   (\<exists>macro.
      parseMacro (stream (before @ Element b battrs bkids # after) @ Tok (EndElement n) # d) attrs =
        Inr (macro, d) \<and>
      Body macro = TrimSpace (concat (map ownText bkids)))"
proof -
  assume n: "Local n = ''structured-macro''"
    and b: "Local b = ''rich-text-body'' \<or> Local b = ''plain-text-body''"
    and after: "\<not> list_ex isBody after"
  let ?kids = "before @ Element b battrs bkids # after"
  have "parseMacro (stream ?kids @ Tok (EndElement n) # d) attrs = Inr (macroOf attrs ?kids, d)"
    using n by (rule parseMacro_element)
  moreover have "Body (macroOf attrs ?kids) = TrimSpace (concat (map ownText bkids))"
    using b after by (auto simp: macroOf_def Body_foldl_macroChild)
  ultimately show ?thesis by blast
qed

theorem parseMacro_body_witness:
  "\<exists>macro.
     parseMacro
       (stream ([] @ Element (XName ''ac'' ''rich-text-body'') []
                  [Chars '' a'', Element (XName [] ''b'') [] [Chars ''c''], Chars ''d ''] # []) @
        Tok (EndElement (XName ''ac'' ''structured-macro'')) # [])
       [Attr (XName ''ac'' ''name'') ''info''] = Inr (macro, []) \<and>
     Body macro = ''ad''"
proof -
  have "TrimSpace (concat (map ownText [Chars '' a'', Element (XName [] ''b'') [] [Chars ''c''], Chars ''d ''])) = ''ad''"
    by (simp add: trim_defs)
  then show ?thesis
    using parseMacro_body
      [of "XName ''ac'' ''structured-macro''" "XName ''ac'' ''rich-text-body''" "[]" "[]" "[]"
        "[Chars '' a'', Element (XName [] ''b'') [] [Chars ''c''], Chars ''d '']" "[]"
        "[Attr (XName ''ac'' ''name'') ''info'']"]
    by simp
qed

end
